theory Spec2Isabelle
  imports Complex_Main "HOL-Library.Multiset"
begin

section \<open>Python exceptions\<close>

text \<open>
  Every exception that the notebooks can raise is a value. \<open>NameError\<close> is what Python
  raises when a name that was never bound is read; \<open>ValueError\<close> is raised by the metric
  when predictions and labels do not have the same number of entries; \<open>AssertionError\<close>
  is raised by an \<open>assert\<close> of the library; \<open>MXNetError\<close> stands for any other failure
  reported by the numerical library.
\<close>

datatype exn = NameError string | ValueError string | AssertionError string | MXNetError string

section \<open>NDArray objects and in-place operations (P01-C02-ndarray)\<close>

text \<open>
  An NDArray has a shape and its elements in row-major order. Python variables hold
  references: the interpreter state is a store of objects and an environment that maps
  each bound name to the identity of an object. The identity of an object (what
  \<open>id()\<close> prints) is its position in the store; a newly allocated object is put at the
  end of the store, so while an object is alive no later allocation receives its identity.
\<close>

record 'a ndarray =
  shape :: "nat list"
  elems :: "'a list"

record 'a interp =
  store :: "'a ndarray list"
  env :: "string \<rightharpoonup> nat"

definition lookup :: "'a interp \<Rightarrow> string \<Rightarrow> exn + nat" where
  "lookup s v = (case env s v of None \<Rightarrow> Inl (NameError v) | Some a \<Rightarrow> Inr a)"

definition alloc :: "'a ndarray \<Rightarrow> 'a interp \<Rightarrow> nat \<times> 'a interp" where
  "alloc arr s = (length (store s), s\<lparr>store := store s @ [arr]\<rparr>)"

text \<open>Elementwise addition of two arrays; the library refuses operands of different shape.\<close>

definition nd_plus :: "('a::plus) ndarray \<Rightarrow> 'a ndarray \<Rightarrow> exn + 'a ndarray" where
  "nd_plus a b =
     (if shape a = shape b \<and> length (elems a) = length (elems b)
      then Inr \<lparr>shape = shape a, elems = map2 (+) (elems a) (elems b)\<rparr>
      else Inl (MXNetError ''shape''))"

text \<open>The expression \<open>u + v\<close>: both names are read, the sum is a newly allocated object.\<close>

definition eval_add :: "string \<Rightarrow> string \<Rightarrow> ('a::plus) interp \<Rightarrow> exn + (nat \<times> 'a interp)" where
  "eval_add u v s =
     (case lookup s u of Inl x \<Rightarrow> Inl x | Inr iu \<Rightarrow>
      case lookup s v of Inl x \<Rightarrow> Inl x | Inr iv \<Rightarrow>
      case nd_plus (store s ! iu) (store s ! iv) of Inl x \<Rightarrow> Inl x
      | Inr r \<Rightarrow> Inr (alloc r s))"

text \<open>\<open>t = u + v\<close>: the name \<open>t\<close> is bound to the object that the expression returned.\<close>

definition assign_add :: "string \<Rightarrow> string \<Rightarrow> string \<Rightarrow> ('a::plus) interp \<Rightarrow> exn + 'a interp" where
  "assign_add t u v s =
     (case eval_add u v s of Inl x \<Rightarrow> Inl x
      | Inr (r, s1) \<Rightarrow> Inr (s1\<lparr>env := (env s1)(t \<mapsto> r)\<rparr>))"

text \<open>
  \<open>t[:] = u + v\<close>: the right-hand side is evaluated first, then \<open>t\<close> is read and the
  elements of the result are copied into the object \<open>t\<close> refers to. No name is rebound.
\<close>

definition slice_assign_add :: "string \<Rightarrow> string \<Rightarrow> string \<Rightarrow> ('a::plus) interp \<Rightarrow> exn + 'a interp" where
  "slice_assign_add t u v s =
     (case eval_add u v s of Inl x \<Rightarrow> Inl x
      | Inr (r, s1) \<Rightarrow>
        (case lookup s1 t of Inl x \<Rightarrow> Inl x
         | Inr it \<Rightarrow>
           if shape (store s1 ! it) = shape (store s1 ! r)
           then Inr (s1\<lparr>store := (store s1)[it := (store s1 ! it)\<lparr>elems := elems (store s1 ! r)\<rparr>]\<rparr>)
           else Inl (MXNetError ''shape'')))"

text \<open>
  \<open>u += v\<close>: the library's in-place addition writes the sum into the object of \<open>u\<close> and
  returns that same object, to which Python then binds \<open>u\<close> again.
\<close>

definition iadd :: "string \<Rightarrow> string \<Rightarrow> ('a::plus) interp \<Rightarrow> exn + 'a interp" where
  "iadd u v s =
     (case lookup s u of Inl x \<Rightarrow> Inl x | Inr iu \<Rightarrow>
      case lookup s v of Inl x \<Rightarrow> Inl x | Inr iv \<Rightarrow>
      case nd_plus (store s ! iu) (store s ! iv) of Inl x \<Rightarrow> Inl x
      | Inr r \<Rightarrow> Inr (s\<lparr>store := (store s)[iu := r], env := (env s)(u \<mapsto> iu)\<rparr>))"

text \<open>\<open>id(v)\<close>.\<close>

definition py_id :: "'a interp \<Rightarrow> string \<Rightarrow> nat option" where
  "py_id s v = env s v"

text \<open>The array a name refers to.\<close>

definition deref :: "'a interp \<Rightarrow> string \<Rightarrow> 'a ndarray option" where
  "deref s v = (case env s v of None \<Rightarrow> None
                | Some a \<Rightarrow> if a < length (store s) then Some (store s ! a) else None)"

text \<open>A state in which the three names refer to live arrays of one shape.\<close>

definition same_shape :: "'a interp \<Rightarrow> string list \<Rightarrow> nat list \<Rightarrow> nat \<Rightarrow> bool" where
  "same_shape s vs sh n =
     list_all (\<lambda>v. case deref s v of None \<Rightarrow> False
                   | Some a \<Rightarrow> shape a = sh \<and> length (elems a) = n) vs"


text \<open>The interpreter state of the notebook just before the three cells on identity.\<close>

definition nb_state :: "int interp" where
  "nb_state = \<lparr>store = [\<lparr>shape = [2], elems = [1, 2]\<rparr>, \<lparr>shape = [2], elems = [10, 20]\<rparr>,
                        \<lparr>shape = [2], elems = [0, 0]\<rparr>],
               env = [''x'' \<mapsto> 0, ''y'' \<mapsto> 1, ''z'' \<mapsto> 2]\<rparr>"

section \<open>Floating-point results\<close>

text \<open>
  Losses and accuracies are Python floats. Rounding is not modelled: a float is either
  a rational number or \<open>nan\<close>, the value that an average over nothing has.
\<close>

datatype pyfloat = NaN | Fin rat

fun fl_add :: "pyfloat \<Rightarrow> pyfloat \<Rightarrow> pyfloat" where
  "fl_add (Fin a) (Fin b) = Fin (a + b)"
| "fl_add _ _ = NaN"

fun fl_mul :: "pyfloat \<Rightarrow> pyfloat \<Rightarrow> pyfloat" where
  "fl_mul (Fin a) (Fin b) = Fin (a * b)"
| "fl_mul _ _ = NaN"

text \<open>\<open>nd.mean(loss).asscalar()\<close>\<close>

definition nd_mean :: "rat list \<Rightarrow> pyfloat" where
  "nd_mean xs = (if xs = [] then NaN else Fin (sum_list xs / of_nat (length xs)))"

text \<open>\<open>nd.argmax(output, axis=1)\<close> on one row: the position of the first largest score.\<close>

fun argmax_from :: "nat \<Rightarrow> rat \<Rightarrow> nat \<Rightarrow> rat list \<Rightarrow> nat" where
  "argmax_from best v k [] = best"
| "argmax_from best v k (x # xs) =
     (if v < x then argmax_from k x (Suc k) xs else argmax_from best v (Suc k) xs)"

fun argmax :: "rat list \<Rightarrow> nat" where
  "argmax [] = 0"
| "argmax (x # xs) = argmax_from 0 x 1 xs"

section \<open>Data iterators\<close>

text \<open>
  A sample is a pair of an input and its integer label; a batch is a list of samples, from
  which the loops read the inputs (\<open>batch.data[0]\<close>, \<open>d\<close>) and the labels
  (\<open>batch.label[0]\<close>, \<open>l\<close>). The two iterator classes belong to the numerical library,
  not to the notebooks; they are modelled after the library's description of the
  arguments that the notebooks pass.
\<close>

type_synonym 'x sample = "'x \<times> nat"
type_synonym 'x batch = "'x sample list"

text \<open>
  \<open>mx.io.NDArrayIter(data, label, batch_size, shuffle=True)\<close>: the samples are shuffled
  once, when the iterator is built, so \<open>nd_data\<close> holds them in the shuffled order. The
  last batch is handled in the default way, \<open>pad\<close>: when fewer than \<open>batch_size\<close> samples
  are left, the batch is filled up with samples from the beginning.
\<close>

record 'a nd_iter =
  nd_data :: "'a list"
  nd_batch_size :: nat

text \<open>
  The constructor, given the samples in the order its shuffle has put them in. It
  asserts that there are at least \<open>batch_size\<close> samples and refuses to build the iterator
  otherwise.
\<close>

definition nd_array_iter :: "'a list \<Rightarrow> nat \<Rightarrow> exn + 'a nd_iter" where
  "nd_array_iter xs bs =
     (if length xs < bs then Inl (AssertionError ''batch_size need to be smaller than data size.'')
      else Inr \<lparr>nd_data = xs, nd_batch_size = bs\<rparr>)"

definition getdata :: "'a nd_iter \<Rightarrow> nat \<Rightarrow> 'a list" where
  "getdata it cursor =
     (if cursor + nd_batch_size it \<le> length (nd_data it)
      then take (nd_batch_size it) (drop cursor (nd_data it))
      else drop cursor (nd_data it)
           @ take (nd_batch_size it + cursor - length (nd_data it)) (nd_data it))"

text \<open>
  The batches that \<open>next\<close> returns from a cursor on, until \<open>StopIteration\<close>. The cursor
  advances by \<open>batch_size\<close>; with a batch size of zero it would never advance, and the
  iteration is then cut off at once (every notebook builds its iterators with 64).
\<close>

function nd_iterate :: "'a nd_iter \<Rightarrow> nat \<Rightarrow> 'a list list" where
  "nd_iterate it cursor =
     (if nd_batch_size it = 0 then []
      else if cursor < length (nd_data it)
           then getdata it cursor # nd_iterate it (cursor + nd_batch_size it)
           else [])"
  by pat_completeness auto
termination
  by (relation "measure (\<lambda>(it, cursor). length (nd_data it) - cursor)") auto

text \<open>\<open>it.reset()\<close> followed by a loop over \<open>it\<close>: one pass.\<close>

definition nd_epoch :: "'a nd_iter \<Rightarrow> 'a list list" where
  "nd_epoch it = nd_iterate it 0"

text \<open>
  \<open>gluon.data.DataLoader(dataset, batch_size, shuffle, last_batch='discard')\<close>. Its batch
  sampler collects indices until a batch is full and yields it; what is left at the end
  of a pass is an incomplete batch, which \<open>discard\<close> drops.
\<close>

record 'a data_loader =
  dl_dataset :: "'a list"
  dl_batch_size :: nat
  dl_shuffle :: bool

function batch_sampler :: "nat \<Rightarrow> 'a list \<Rightarrow> 'a list list" where
  "batch_sampler bs xs =
     (if bs = 0 \<or> length xs < bs then []
      else take bs xs # batch_sampler bs (drop bs xs))"
  by pat_completeness auto
termination
  by (relation "measure (\<lambda>(bs, xs). length xs)") auto

section \<open>The numerical library and the notebook state\<close>

text \<open>
  The library is a parameter of the model: the forward pass of a network with given
  parameters on a batch of inputs (one row of class scores per input), the loss (one
  value per sample), the gradient that \<open>backward\<close> computes for a recorded forward pass,
  the update that the trainer applies for a given batch size, and the permutation that
  the \<open>k\<close>-th shuffle of a data loader draws. Forward pass and loss can fail.
\<close>

record ('p, 'g, 'x) library =
  forward :: "'p \<Rightarrow> 'x list \<Rightarrow> exn + rat list list"
  loss_fn :: "rat list list \<Rightarrow> nat list \<Rightarrow> exn + rat list"
  gradient :: "'p \<Rightarrow> 'x list \<Rightarrow> nat list \<Rightarrow> 'g"
  sgd_update :: "'p \<Rightarrow> 'g \<Rightarrow> nat \<Rightarrow> 'p"
  shuffle :: "nat \<Rightarrow> 'x sample list \<Rightarrow> 'x sample list"

text \<open>The calls into the library, in the order in which they are made.\<close>

datatype event =
    EvForward bool nat  \<comment> \<open>a forward pass on \<open>n\<close> inputs; the flag tells whether autograd was recording\<close>
  | EvLoss bool         \<comment> \<open>the loss function, with the same flag\<close>
  | EvBackward
  | EvStep nat          \<comment> \<open>\<open>trainer.step(n)\<close>\<close>
  | EvMovingLoss        \<comment> \<open>the assignment to \<open>moving_loss\<close> in the body of the batch loop\<close>

text \<open>One printed line: \<open>Epoch e. Loss: .., Train_acc .., Test_acc ..\<close>\<close>

record report =
  rep_epoch :: nat
  rep_loss :: pyfloat
  rep_train_acc :: pyfloat
  rep_test_acc :: pyfloat

text \<open>
  The state of a notebook kernel: the networks bound to global names (each with the
  current values of its parameters), the gradient buffers, the autograd recording flag,
  the global variables \<open>i\<close> and \<open>moving_loss\<close> (\<open>None\<close> while unbound), the number of
  shuffles drawn so far, the lines printed, and the calls made.
\<close>

record ('p, 'g) world =
  nets :: "string \<rightharpoonup> 'p"
  grads :: 'g
  recording :: bool
  var_i :: "nat option"
  var_moving_loss :: "pyfloat option"
  rng :: nat
  printed :: "report list"
  calls :: "event list"

definition lookup_net :: "('p, 'g) world \<Rightarrow> string \<Rightarrow> exn + 'p" where
  "lookup_net w v = (case nets w v of None \<Rightarrow> Inl (NameError v) | Some p \<Rightarrow> Inr p)"

text \<open>\<open>net(data)\<close>\<close>

definition call_net ::
  "('p, 'g, 'x) library \<Rightarrow> 'p \<Rightarrow> 'x list \<Rightarrow> ('p, 'g) world \<Rightarrow> (exn + rat list list) \<times> ('p, 'g) world" where
  "call_net lib p data w =
     (forward lib p data, w\<lparr>calls := calls w @ [EvForward (recording w) (length data)]\<rparr>)"

text \<open>\<open>softmax_cross_entropy(output, label)\<close>\<close>

definition call_loss ::
  "('p, 'g, 'x) library \<Rightarrow> rat list list \<Rightarrow> nat list \<Rightarrow> ('p, 'g) world \<Rightarrow> (exn + rat list) \<times> ('p, 'g) world" where
  "call_loss lib output label w =
     (loss_fn lib output label, w\<lparr>calls := calls w @ [EvLoss (recording w)]\<rparr>)"

text \<open>\<open>loss.backward()\<close>: the gradient of the recorded computation is written to the buffers.\<close>

definition loss_backward ::
  "('p, 'g, 'x) library \<Rightarrow> 'p \<Rightarrow> 'x list \<Rightarrow> nat list \<Rightarrow> ('p, 'g) world \<Rightarrow> ('p, 'g) world" where
  "loss_backward lib p data label w =
     w\<lparr>grads := gradient lib p data label, calls := calls w @ [EvBackward]\<rparr>"

text \<open>\<open>trainer.step(n)\<close>: the parameters of the trainer's network are updated in place.\<close>

definition trainer_step ::
  "('p, 'g, 'x) library \<Rightarrow> string \<Rightarrow> 'p \<Rightarrow> nat \<Rightarrow> ('p, 'g) world \<Rightarrow> ('p, 'g) world" where
  "trainer_step lib name p n w =
     w\<lparr>nets := (nets w)(name \<mapsto> sgd_update lib p (grads w) n), calls := calls w @ [EvStep n]\<rparr>"

text \<open>One pass over a data loader; a shuffling loader draws a new permutation.\<close>

definition dl_epoch ::
  "('p, 'g, 'x) library \<Rightarrow> 'x sample data_loader \<Rightarrow> ('p, 'g) world \<Rightarrow> 'x batch list \<times> ('p, 'g) world" where
  "dl_epoch lib dl w =
     (if dl_shuffle dl
      then (batch_sampler (dl_batch_size dl) (shuffle lib (rng w) (dl_dataset dl)),
            w\<lparr>rng := Suc (rng w)\<rparr>)
      else (batch_sampler (dl_batch_size dl) (dl_dataset dl), w))"

section \<open>The evaluation loop\<close>

text \<open>
  \<open>mx.metric.Accuracy\<close>, a class of the library: \<open>update\<close> refuses predictions and labels of different length,
  otherwise it adds the number of agreeing entries to \<open>sum_metric\<close> and the number of
  entries to \<open>num_inst\<close>; \<open>get\<close> divides, and returns \<open>nan\<close> when nothing was counted.
\<close>

record accuracy =
  sum_metric :: nat
  num_inst :: nat

definition acc_update :: "nat list \<Rightarrow> nat list \<Rightarrow> accuracy \<Rightarrow> exn + accuracy" where
  "acc_update preds labels acc =
     (if length labels \<noteq> length preds then Inl (ValueError ''shape'')
      else Inr \<lparr>sum_metric = sum_metric acc + length (filter (\<lambda>(p, l). p = l) (zip preds labels)),
                num_inst = num_inst acc + length preds\<rparr>)"

definition acc_get :: "accuracy \<Rightarrow> pyfloat" where
  "acc_get acc =
     (if num_inst acc = 0 then NaN
      else Fin (of_nat (sum_metric acc) / of_nat (num_inst acc)))"

text \<open>
  The body of \<open>evaluate_accuracy\<close>, once per batch of the pass. The argument \<open>rs\<close> is what
  is done to each input before the network sees it: nothing in the convolutional
  notebooks, \<open>reshape((-1,784))\<close> in the logistic-regression one.
\<close>

fun evaluate_batches ::
  "('p, 'g, 'x) library \<Rightarrow> ('x \<Rightarrow> 'x) \<Rightarrow> 'p \<Rightarrow> 'x batch list \<Rightarrow> accuracy \<Rightarrow> ('p, 'g) world
   \<Rightarrow> (exn + accuracy) \<times> ('p, 'g) world" where
  "evaluate_batches lib rs p [] acc w = (Inr acc, w)"
| "evaluate_batches lib rs p (b # bs) acc w =
     (let data = map rs (map fst b); label = map snd b in
      case call_net lib p data w of
        (Inl x, w1) \<Rightarrow> (Inl x, w1)
      | (Inr output, w1) \<Rightarrow>
          (let predictions = map argmax output in
           case acc_update predictions label acc of
             Inl x \<Rightarrow> (Inl x, w1)
           | Inr acc' \<Rightarrow> evaluate_batches lib rs p bs acc' w1))"

text \<open>\<open>evaluate_accuracy(data_iterator, net)\<close> on the batches of one pass over the iterator.\<close>

definition evaluate_accuracy ::
  "('p, 'g, 'x) library \<Rightarrow> ('x \<Rightarrow> 'x) \<Rightarrow> 'x batch list \<Rightarrow> 'p \<Rightarrow> ('p, 'g) world
   \<Rightarrow> (exn + pyfloat) \<times> ('p, 'g) world" where
  "evaluate_accuracy lib rs batches p w =
     (case evaluate_batches lib rs p batches \<lparr>sum_metric = 0, num_inst = 0\<rparr> w of
        (Inl x, w1) \<Rightarrow> (Inl x, w1)
      | (Inr acc, w1) \<Rightarrow> (Inr (acc_get acc), w1))"

text \<open>The MNIST notebooks reset the \<open>NDArrayIter\<close> and enumerate it.\<close>

definition evaluate_accuracy_nd ::
  "('p, 'g, 'x) library \<Rightarrow> ('x \<Rightarrow> 'x) \<Rightarrow> 'x sample nd_iter \<Rightarrow> 'p \<Rightarrow> ('p, 'g) world
   \<Rightarrow> (exn + pyfloat) \<times> ('p, 'g) world" where
  "evaluate_accuracy_nd lib rs data_iterator p w =
     evaluate_accuracy lib rs (nd_epoch data_iterator) p w"

text \<open>The VGG notebook loops over the \<open>DataLoader\<close>.\<close>

definition evaluate_accuracy_dl ::
  "('p, 'g, 'x) library \<Rightarrow> 'x sample data_loader \<Rightarrow> 'p \<Rightarrow> ('p, 'g) world
   \<Rightarrow> (exn + pyfloat) \<times> ('p, 'g) world" where
  "evaluate_accuracy_dl lib data_iterator p w =
     (case dl_epoch lib data_iterator w of
        (batches, w0) \<Rightarrow> evaluate_accuracy lib (\<lambda>x. x) batches p w0)"

text \<open>
  The fraction of the samples of a list that satisfy a predicate, as the specification
  words it; an average over no sample is \<open>nan\<close>.
\<close>

definition fraction :: "('a \<Rightarrow> bool) \<Rightarrow> 'a list \<Rightarrow> pyfloat" where
  "fraction P xs =
     (if xs = [] then NaN
      else Fin (of_nat (length (filter P xs)) / of_nat (length xs)))"

section \<open>The training loops\<close>

text \<open>
  The body that the three training loops share, from \<open>with autograd.record():\<close> to the
  assignment to \<open>moving_loss\<close>. \<open>name\<close> is the global the network is read from, \<open>sc\<close> the
  smoothing constant, \<open>e\<close> the epoch. Leaving the \<open>with\<close> block restores the recording
  flag, also when the block is left by an exception. The conditional expression reads
  \<open>i\<close> first, and \<open>moving_loss\<close> only in its \<open>else\<close> branch.
\<close>

definition batch_step ::
  "('p, 'g, 'x) library \<Rightarrow> string \<Rightarrow> rat \<Rightarrow> nat \<Rightarrow> 'x list \<Rightarrow> nat list \<Rightarrow> ('p, 'g) world
   \<Rightarrow> (exn + unit) \<times> ('p, 'g) world" where
  "batch_step lib name sc e data label w =
     (let prev = recording w; w1 = w\<lparr>recording := True\<rparr> in
      case lookup_net w1 name of
        Inl x \<Rightarrow> (Inl x, w1\<lparr>recording := prev\<rparr>)
      | Inr p \<Rightarrow>
      (case call_net lib p data w1 of
        (Inl x, w2) \<Rightarrow> (Inl x, w2\<lparr>recording := prev\<rparr>)
      | (Inr output, w2) \<Rightarrow>
      (case call_loss lib output label w2 of
        (Inl x, w3) \<Rightarrow> (Inl x, w3\<lparr>recording := prev\<rparr>)
      | (Inr loss, w3) \<Rightarrow>
      (let w4 = w3\<lparr>recording := prev\<rparr>;
           w5 = loss_backward lib p data label w4;
           w6 = trainer_step lib name p (length data) w5;
           curr_loss = nd_mean loss in
       case var_i w6 of
         None \<Rightarrow> (Inl (NameError ''i''), w6)
       | Some i \<Rightarrow>
           if i = 0 \<and> e = 0
           then (Inr (), w6\<lparr>var_moving_loss := Some curr_loss,
                            calls := calls w6 @ [EvMovingLoss]\<rparr>)
           else (case var_moving_loss w6 of
                   None \<Rightarrow> (Inl (NameError ''moving_loss''), w6)
                 | Some m \<Rightarrow>
                     (Inr (), w6\<lparr>var_moving_loss :=
                                   Some (fl_add (fl_mul (Fin (1 - sc)) m) (fl_mul (Fin sc) curr_loss)),
                                 calls := calls w6 @ [EvMovingLoss]\<rparr>))))))"

text \<open>\<open>for i, batch in enumerate(train_data):\<close> binds \<open>i\<close> before each run of the body.\<close>

fun train_enumerate ::
  "('p, 'g, 'x) library \<Rightarrow> string \<Rightarrow> ('x \<Rightarrow> 'x) \<Rightarrow> rat \<Rightarrow> nat \<Rightarrow> nat \<Rightarrow> 'x batch list
   \<Rightarrow> ('p, 'g) world \<Rightarrow> (exn + unit) \<times> ('p, 'g) world" where
  "train_enumerate lib name rs sc e i [] w = (Inr (), w)"
| "train_enumerate lib name rs sc e i (b # bs) w =
     (case batch_step lib name sc e (map rs (map fst b)) (map snd b) (w\<lparr>var_i := Some i\<rparr>) of
        (Inl x, w1) \<Rightarrow> (Inl x, w1)
      | (Inr u, w1) \<Rightarrow> train_enumerate lib name rs sc e (Suc i) bs w1)"

text \<open>\<open>for d, l in train_data:\<close> binds only \<open>d\<close> and \<open>l\<close>.\<close>

fun train_plain ::
  "('p, 'g, 'x) library \<Rightarrow> string \<Rightarrow> rat \<Rightarrow> nat \<Rightarrow> 'x batch list
   \<Rightarrow> ('p, 'g) world \<Rightarrow> (exn + unit) \<times> ('p, 'g) world" where
  "train_plain lib name sc e [] w = (Inr (), w)"
| "train_plain lib name sc e (b # bs) w =
     (case batch_step lib name sc e (map fst b) (map snd b) w of
        (Inl x, w1) \<Rightarrow> (Inl x, w1)
      | (Inr u, w1) \<Rightarrow> train_plain lib name sc e bs w1)"

text \<open>\<open>print("Epoch %s. Loss: %s, Train_acc %s, Test_acc %s" % (e, moving_loss, ..))\<close>\<close>

definition print_report ::
  "nat \<Rightarrow> pyfloat \<Rightarrow> pyfloat \<Rightarrow> ('p, 'g) world \<Rightarrow> (exn + unit) \<times> ('p, 'g) world" where
  "print_report e train_accuracy test_accuracy w =
     (case var_moving_loss w of
        None \<Rightarrow> (Inl (NameError ''moving_loss''), w)
      | Some m \<Rightarrow>
          (Inr (), w\<lparr>printed := printed w @
             [\<lparr>rep_epoch = e, rep_loss = m, rep_train_acc = train_accuracy,
               rep_test_acc = test_accuracy\<rparr>]\<rparr>))"

text \<open>One run of the body of the epoch loop of the two MNIST notebooks.\<close>

definition mnist_epoch ::
  "('p, 'g, 'x) library \<Rightarrow> ('x \<Rightarrow> 'x) \<Rightarrow> rat \<Rightarrow> 'x sample nd_iter \<Rightarrow> 'x sample nd_iter \<Rightarrow> nat
   \<Rightarrow> ('p, 'g) world \<Rightarrow> (exn + unit) \<times> ('p, 'g) world" where
  "mnist_epoch lib rs sc train_data test_data e w =
     (case train_enumerate lib ''net'' rs sc e 0 (nd_epoch train_data) w of
        (Inl x, w1) \<Rightarrow> (Inl x, w1)
      | (Inr u, w1) \<Rightarrow>
      (case lookup_net w1 ''net'' of
        Inl x \<Rightarrow> (Inl x, w1)
      | Inr p \<Rightarrow>
      (case evaluate_accuracy_nd lib rs test_data p w1 of
        (Inl x, w2) \<Rightarrow> (Inl x, w2)
      | (Inr test_accuracy, w2) \<Rightarrow>
      (case lookup_net w2 ''net'' of
        Inl x \<Rightarrow> (Inl x, w2)
      | Inr p' \<Rightarrow>
      (case evaluate_accuracy_nd lib rs train_data p' w2 of
        (Inl x, w3) \<Rightarrow> (Inl x, w3)
      | (Inr train_accuracy, w3) \<Rightarrow> print_report e train_accuracy test_accuracy w3)))))"

text \<open>One run of the body of the epoch loop of the VGG notebook.\<close>

definition vgg_epoch ::
  "('p, 'g, 'x) library \<Rightarrow> rat \<Rightarrow> 'x sample data_loader \<Rightarrow> 'x sample data_loader \<Rightarrow> nat
   \<Rightarrow> ('p, 'g) world \<Rightarrow> (exn + unit) \<times> ('p, 'g) world" where
  "vgg_epoch lib sc train_data test_data e w =
     (case dl_epoch lib train_data w of (batches, w0) \<Rightarrow>
      (case train_plain lib ''vgg_net'' sc e batches w0 of
        (Inl x, w1) \<Rightarrow> (Inl x, w1)
      | (Inr u, w1) \<Rightarrow>
      (case lookup_net w1 ''alex_net'' of
        Inl x \<Rightarrow> (Inl x, w1)
      | Inr p \<Rightarrow>
      (case evaluate_accuracy_dl lib test_data p w1 of
        (Inl x, w2) \<Rightarrow> (Inl x, w2)
      | (Inr test_accuracy, w2) \<Rightarrow>
      (case lookup_net w2 ''alex_net'' of
        Inl x \<Rightarrow> (Inl x, w2)
      | Inr p' \<Rightarrow>
      (case evaluate_accuracy_dl lib train_data p' w2 of
        (Inl x, w3) \<Rightarrow> (Inl x, w3)
      | (Inr train_accuracy, w3) \<Rightarrow> print_report e train_accuracy test_accuracy w3))))))"

text \<open>\<open>for e in range(epochs):\<close> over a body; an exception ends the loop.\<close>

fun for_epochs ::
  "(nat \<Rightarrow> 'w \<Rightarrow> (exn + unit) \<times> 'w) \<Rightarrow> nat list \<Rightarrow> 'w \<Rightarrow> (exn + unit) \<times> 'w" where
  "for_epochs body [] w = (Inr (), w)"
| "for_epochs body (e # es) w =
     (case body e w of
        (Inl x, w1) \<Rightarrow> (Inl x, w1)
      | (Inr u, w1) \<Rightarrow> for_epochs body es w1)"

definition epochs :: nat where
  "epochs = 10"

definition smoothing_constant :: rat where
  "smoothing_constant = 1 / 100"

definition batch_size :: nat where
  "batch_size = 64"

text \<open>The training cell of the convolutional MNIST notebook.\<close>

definition cnn_training ::
  "('p, 'g, 'x) library \<Rightarrow> 'x sample nd_iter \<Rightarrow> 'x sample nd_iter \<Rightarrow> ('p, 'g) world
   \<Rightarrow> (exn + unit) \<times> ('p, 'g) world" where
  "cnn_training lib train_data test_data w =
     for_epochs (mnist_epoch lib (\<lambda>x. x) smoothing_constant train_data test_data) [0..<epochs] w"

text \<open>
  The training cell of the logistic-regression notebook: \<open>moving_loss = 0.\<close> comes first,
  and every input is reshaped.
\<close>

definition logistic_training ::
  "('p, 'g, 'x) library \<Rightarrow> ('x \<Rightarrow> 'x) \<Rightarrow> 'x sample nd_iter \<Rightarrow> 'x sample nd_iter \<Rightarrow> ('p, 'g) world
   \<Rightarrow> (exn + unit) \<times> ('p, 'g) world" where
  "logistic_training lib reshape train_data test_data w =
     for_epochs (mnist_epoch lib reshape smoothing_constant train_data test_data) [0..<epochs]
       (w\<lparr>var_moving_loss := Some (Fin 0)\<rparr>)"

text \<open>The training cell of the VGG notebook.\<close>

definition vgg_training ::
  "('p, 'g, 'x) library \<Rightarrow> 'x sample data_loader \<Rightarrow> 'x sample data_loader \<Rightarrow> ('p, 'g) world
   \<Rightarrow> (exn + unit) \<times> ('p, 'g) world" where
  "vgg_training lib train_data test_data w =
     for_epochs (vgg_epoch lib smoothing_constant train_data test_data) [0..<epochs] w"

text \<open>
  The kernel state when a training cell starts, after the cells above it have run in
  order: one network is bound (\<open>net\<close>, or \<open>vgg_net\<close> in the VGG notebook), autograd is
  not recording, nothing has been printed, and neither \<open>i\<close> nor \<open>moving_loss\<close> is bound.
\<close>

definition kernel_state :: "string \<Rightarrow> 'p \<Rightarrow> 'g \<Rightarrow> ('p, 'g) world" where
  "kernel_state name p g =
     \<lparr>nets = [name \<mapsto> p], grads = g, recording = False, var_i = None,
      var_moving_loss = None, rng = 0, printed = [], calls = []\<rparr>"

text \<open>
  What one run of the loop body on a batch makes of the parameters of the network:
  the trainer's update with the gradient of the batch and the size of the batch.
\<close>

definition sgd_on :: "('p, 'g, 'x) library \<Rightarrow> ('x \<Rightarrow> 'x) \<Rightarrow> 'p \<Rightarrow> 'x batch \<Rightarrow> 'p" where
  "sgd_on lib rs p b =
     sgd_update lib p (gradient lib p (map rs (map fst b)) (map snd b)) (length b)"

text \<open>
  The iterators as the notebooks build them; \<open>mnist_iter xs\<close> is what the constructor
  returns for \<open>xs\<close> and the batch size of the notebooks, unless it refuses.
\<close>

definition mnist_iter :: "'a list \<Rightarrow> 'a nd_iter" where
  "mnist_iter xs = \<lparr>nd_data = xs, nd_batch_size = batch_size\<rparr>"

definition cifar_loader :: "'a list \<Rightarrow> bool \<Rightarrow> 'a data_loader" where
  "cifar_loader xs sh = \<lparr>dl_dataset = xs, dl_batch_size = batch_size, dl_shuffle = sh\<rparr>"

section \<open>Order of the calls\<close>

text \<open>
  A reader of the sequence of calls. Between two mini-batches it is \<open>Idle\<close>, where the
  only calls it lets pass are forward passes outside of recording (those of the
  evaluation loop) and a recorded forward pass, which opens a mini-batch. Within a
  mini-batch it lets pass only the recorded loss, then \<open>backward\<close>, then one trainer step
  whose argument is the number of inputs of the forward pass, then the assignment to
  \<open>moving_loss\<close>, which closes the mini-batch.
\<close>

datatype phase = Idle | Forwarded nat | LossDone nat | BackDone nat | Stepped

fun next_phase :: "phase \<Rightarrow> event \<Rightarrow> phase option" where
  "next_phase Idle (EvForward r n) = (if r then Some (Forwarded n) else Some Idle)"
| "next_phase (Forwarded n) (EvLoss r) = (if r then Some (LossDone n) else None)"
| "next_phase (LossDone n) EvBackward = Some (BackDone n)"
| "next_phase (BackDone n) (EvStep m) = (if m = n then Some Stepped else None)"
| "next_phase Stepped EvMovingLoss = Some Idle"
| "next_phase _ _ = None"

fun run_phases :: "phase \<Rightarrow> event list \<Rightarrow> phase option" where
  "run_phases ph [] = Some ph"
| "run_phases ph (ev # evs) =
     (case next_phase ph ev of None \<Rightarrow> None | Some ph' \<Rightarrow> run_phases ph' evs)"

definition in_order :: "event list \<Rightarrow> bool" where
  "in_order evs = (run_phases Idle evs \<noteq> None)"

text \<open>A state between two mini-batches: the calls so far are in order and none is open.\<close>

definition between_batches :: "('p, 'g) world \<Rightarrow> bool" where
  "between_batches w = (run_phases Idle (calls w) = Some Idle \<and> \<not> recording w)"

text \<open>
  What is to hold of the outcome of a loop: after an exception the calls made are in
  order, after a normal end the state is again one between two mini-batches.
\<close>

definition ordered_result :: "(exn + 'a) \<times> ('p, 'g) world \<Rightarrow> bool" where
  "ordered_result r =
     (case r of (Inl x, w') \<Rightarrow> in_order (calls w') | (Inr u, w') \<Rightarrow> between_batches w')"

text \<open>The arguments of the trainer steps among the calls: the sizes of the batches trained on.\<close>

fun step_sizes :: "event list \<Rightarrow> nat list" where
  "step_sizes [] = []"
| "step_sizes (EvStep n # evs) = n # step_sizes evs"
| "step_sizes (ev # evs) = step_sizes evs"

section \<open>What a run shows apart from the moving loss\<close>

text \<open>
  The state with every value of the moving loss blotted out: the variable (whether it
  is bound stays visible) and the loss column of the printed lines.
\<close>

definition forget_loss :: "('p, 'g) world \<Rightarrow> ('p, 'g) world" where
  "forget_loss w =
     w\<lparr>var_moving_loss := map_option (\<lambda>m. NaN) (var_moving_loss w),
       printed := map (\<lambda>r. r\<lparr>rep_loss := NaN\<rparr>) (printed w)\<rparr>"

definition accuracies :: "('p, 'g) world \<Rightarrow> (nat \<times> pyfloat \<times> pyfloat) list" where
  "accuracies w = map (\<lambda>r. (rep_epoch r, rep_train_acc r, rep_test_acc r)) (printed w)"

text \<open>Two outcomes that differ at most in values of the moving loss.\<close>

definition same_outcome :: "(exn + 'a) \<times> ('p, 'g) world \<Rightarrow> (exn + 'a) \<times> ('p, 'g) world \<Rightarrow> bool" where
  "same_outcome r1 r2 = (fst r1 = fst r2 \<and> forget_loss (snd r1) = forget_loss (snd r2))"

section \<open>A small library and small data sets\<close>

text \<open>
  A library to run the loops on: inputs and parameters are numbers, a network with
  parameter \<open>p\<close> puts an input below \<open>p\<close> in class 0 and any other in class 1, and its
  forward pass fails when \<open>p\<close> is zero or when \<open>999\<close> is among the inputs; every sample has
  loss \<open>1\<close>, and a trainer step lowers the parameter by one.
\<close>

definition toy_lib :: "(nat, nat, nat) library" where
  "toy_lib = \<lparr>forward = (\<lambda>p xs. if p = 0 \<or> 999 \<in> set xs then Inl (MXNetError ''forward'')
                                else Inr (map (\<lambda>x. if x < p then [1, 0] else [0, 1]) xs)),
              loss_fn = (\<lambda>out lab. Inr (map (\<lambda>l. 1) lab)),
              gradient = (\<lambda>p d l. 1),
              sgd_update = (\<lambda>p g n. p - g),
              shuffle = (\<lambda>k xs. rev xs)\<rparr>"

text \<open>
  Three variants: a library whose loss function fails, one whose network returns no
  row of scores at all, and one whose forward pass fails when the parameter is among the
  inputs.
\<close>

definition lossless_lib :: "(nat, nat, nat) library" where
  "lossless_lib = toy_lib\<lparr>loss_fn := (\<lambda>out lab. Inl (MXNetError ''loss''))\<rparr>"

definition rowless_lib :: "(nat, nat, nat) library" where
  "rowless_lib = toy_lib\<lparr>forward := (\<lambda>p xs. Inr [])\<rparr>"

definition picky_lib :: "(nat, nat, nat) library" where
  "picky_lib = toy_lib\<lparr>forward := (\<lambda>p xs. if p \<in> set xs then Inl (MXNetError ''forward'')
                                          else Inr (map (\<lambda>x. [0, 1]) xs))\<rparr>"

definition toy_score :: "nat \<Rightarrow> nat \<Rightarrow> rat list" where
  "toy_score p x = (if x < p then [1, 0] else [0, 1])"

text \<open>The samples \<open>0, .., n - 1\<close>, all of class 0.\<close>

definition samples :: "nat \<Rightarrow> nat sample list" where
  "samples n = map (\<lambda>k. (k, 0)) [0..<n]"

text \<open>Iterators with batches of one sample.\<close>

definition one_batch :: "nat sample nd_iter" where
  "one_batch = \<lparr>nd_data = [(0, 0)], nd_batch_size = 1\<rparr>"

definition two_batches :: "nat sample nd_iter" where
  "two_batches = \<lparr>nd_data = [(0, 0), (1, 0)], nd_batch_size = 1\<rparr>"

definition three_by_two :: "nat sample nd_iter" where
  "three_by_two = \<lparr>nd_data = [(0, 0), (1, 0), (2, 0)], nd_batch_size = 2\<rparr>"

definition plain_loader :: "nat sample data_loader" where
  "plain_loader = \<lparr>dl_dataset = [(0, 0), (1, 0)], dl_batch_size = 1, dl_shuffle = False\<rparr>"

definition discarding_loader :: "nat sample data_loader" where
  "discarding_loader = \<lparr>dl_dataset = [(0, 0), (1, 0), (2, 0)], dl_batch_size = 2, dl_shuffle = False\<rparr>"

definition shuffling_loader :: "nat sample data_loader" where
  "shuffling_loader = \<lparr>dl_dataset = [(0, 0), (1, 0)], dl_batch_size = 1, dl_shuffle = True\<rparr>"

text \<open>
  An iterator and a loader without samples, whose pass is empty (the constructor of
  \<open>NDArrayIter\<close> would refuse to build the first).
\<close>

definition no_batches :: "nat sample nd_iter" where
  "no_batches = \<lparr>nd_data = [], nd_batch_size = 1\<rparr>"

definition other_batch :: "nat sample nd_iter" where
  "other_batch = \<lparr>nd_data = [(1, 0)], nd_batch_size = 1\<rparr>"

definition empty_loader :: "nat sample data_loader" where
  "empty_loader = \<lparr>dl_dataset = [], dl_batch_size = 1, dl_shuffle = False\<rparr>"

definition first_loader :: "nat sample data_loader" where
  "first_loader = \<lparr>dl_dataset = [(0, 0)], dl_batch_size = 1, dl_shuffle = False\<rparr>"

definition other_loader :: "nat sample data_loader" where
  "other_loader = \<lparr>dl_dataset = [(1, 0)], dl_batch_size = 1, dl_shuffle = False\<rparr>"

text \<open>A kernel state in which both \<open>vgg_net\<close> and \<open>alex_net\<close> are bound.\<close>

definition two_nets :: "nat \<Rightarrow> nat \<Rightarrow> (nat, nat) world" where
  "two_nets p q = (kernel_state ''vgg_net'' p 0)\<lparr>nets := [''vgg_net'' \<mapsto> p, ''alex_net'' \<mapsto> q]\<rparr>"

definition one_batch_loader :: "nat sample data_loader" where
  "one_batch_loader = \<lparr>dl_dataset = [(0, 0)], dl_batch_size = 1, dl_shuffle = True\<rparr>"

section \<open>Running the loops on the small library\<close>

text \<open>The definitions to unfold when a loop is run on concrete data.\<close>

lemmas toy_run =
  batch_step_def Let_def toy_lib_def call_net_def call_loss_def loss_backward_def
  trainer_step_def lookup_net_def kernel_state_def nd_mean_def smoothing_constant_def
  nd_epoch_def nd_iterate.simps getdata_def one_batch_def two_batches_def one_batch_loader_def
  no_batches_def other_batch_def empty_loader_def first_loader_def other_loader_def two_nets_def
  plain_loader_def discarding_loader_def evaluate_accuracy_dl_def lossless_lib_def rowless_lib_def
  picky_lib_def
  dl_epoch_def batch_sampler.simps evaluate_accuracy_nd_def evaluate_accuracy_def
  acc_update_def acc_get_def mnist_epoch_def vgg_epoch_def print_report_def

section \<open>Properties of the in-place operations\<close>

lemma same_shapeD:
  "same_shape s vs sh n \<Longrightarrow> v \<in> set vs \<Longrightarrow>
   \<exists>a. env s v = Some a \<and> a < length (store s) \<and> shape (store s ! a) = sh
       \<and> length (elems (store s ! a)) = n"
  by (auto simp: same_shape_def list_all_iff deref_def split: option.splits if_splits)

text \<open>
  Claim C10. When \<open>x\<close>, \<open>y\<close> and \<open>z\<close> refer to arrays of one shape, \<open>z[:] = x + y\<close> and
  \<open>x += y\<close> succeed, leave the identity of \<open>z\<close> (of \<open>x\<close>) as it was and store the
  elementwise sum in that object; \<open>y = y + x\<close> succeeds and binds \<open>y\<close> to an object with
  another identity that holds the sum, while every object that existed before keeps its
  contents.
\<close>

theorem inplace_identity:
  assumes "same_shape s [x, y, z] sh n"
  shows "\<exists>a b s1 s2 s3.
     deref s x = Some a \<and> deref s y = Some b \<and>
     slice_assign_add z x y s = Inr s1 \<and> py_id s1 z = py_id s z \<and>
       deref s1 z = Some \<lparr>shape = sh, elems = map2 (+) (elems a) (elems b)\<rparr> \<and>
     iadd x y s = Inr s2 \<and> py_id s2 x = py_id s x \<and>
       deref s2 x = Some \<lparr>shape = sh, elems = map2 (+) (elems a) (elems b)\<rparr> \<and>
     assign_add y y x s = Inr s3 \<and> py_id s3 y \<noteq> py_id s y \<and>
       deref s3 y = Some \<lparr>shape = sh, elems = map2 (+) (elems b) (elems a)\<rparr> \<and>
       (\<forall>i < length (store s). store s3 ! i = store s ! i)"
proof -
  from same_shapeD[OF assms, of x] obtain ix where x: "env s x = Some ix" "ix < length (store s)"
    "shape (store s ! ix) = sh" "length (elems (store s ! ix)) = n" by auto
  from same_shapeD[OF assms, of y] obtain iy where y: "env s y = Some iy" "iy < length (store s)"
    "shape (store s ! iy) = sh" "length (elems (store s ! iy)) = n" by auto
  from same_shapeD[OF assms, of z] obtain iz where z: "env s z = Some iz" "iz < length (store s)"
    "shape (store s ! iz) = sh" "length (elems (store s ! iz)) = n" by auto
  show ?thesis using x y z
    by (auto simp: deref_def slice_assign_add_def eval_add_def lookup_def nd_plus_def alloc_def
        iadd_def assign_add_def py_id_def nth_append)
qed

theorem inplace_identity_witness:
  "same_shape nb_state [''x'', ''y'', ''z''] [2] 2 \<and>
   (\<exists>s1 s2 s3.
     slice_assign_add ''z'' ''x'' ''y'' nb_state = Inr s1 \<and> py_id s1 ''z'' = Some 2 \<and>
       deref s1 ''z'' = Some \<lparr>shape = [2], elems = [11, 22]\<rparr> \<and>
     iadd ''x'' ''y'' nb_state = Inr s2 \<and> py_id s2 ''x'' = Some 0 \<and>
       deref s2 ''x'' = Some \<lparr>shape = [2], elems = [11, 22]\<rparr> \<and>
     assign_add ''y'' ''y'' ''x'' nb_state = Inr s3 \<and> py_id s3 ''y'' \<noteq> Some 1 \<and>
       deref s3 ''y'' = Some \<lparr>shape = [2], elems = [11, 22]\<rparr>)"
proof -
  have h: "same_shape nb_state [''x'', ''y'', ''z''] [2] 2"
    by (simp add: same_shape_def nb_state_def deref_def)
  have d: "deref nb_state ''x'' = Some \<lparr>shape = [2], elems = [1, 2]\<rparr>"
    "deref nb_state ''y'' = Some \<lparr>shape = [2], elems = [10, 20]\<rparr>"
    "py_id nb_state ''z'' = Some 2" "py_id nb_state ''x'' = Some 0" "py_id nb_state ''y'' = Some 1"
    by (simp_all add: nb_state_def deref_def py_id_def)
  from inplace_identity[OF h] obtain a b s1 s2 s3 where r:
    "deref nb_state ''x'' = Some a" "deref nb_state ''y'' = Some b"
    "slice_assign_add ''z'' ''x'' ''y'' nb_state = Inr s1" "py_id s1 ''z'' = py_id nb_state ''z''"
    "deref s1 ''z'' = Some \<lparr>shape = [2], elems = map2 (+) (elems a) (elems b)\<rparr>"
    "iadd ''x'' ''y'' nb_state = Inr s2" "py_id s2 ''x'' = py_id nb_state ''x''"
    "deref s2 ''x'' = Some \<lparr>shape = [2], elems = map2 (+) (elems a) (elems b)\<rparr>"
    "assign_add ''y'' ''y'' ''x'' nb_state = Inr s3" "py_id s3 ''y'' \<noteq> py_id nb_state ''y''"
    "deref s3 ''y'' = Some \<lparr>shape = [2], elems = map2 (+) (elems b) (elems a)\<rparr>"
    by blast
  from r(1,2) d(1,2) have ab: "elems a = [1, 2]" "elems b = [10, 20]" by auto
  show ?thesis using h r d ab by simp
qed

section \<open>The samples of one pass over an iterator\<close>

lemma concat_batch_sampler:
  "concat (batch_sampler bs xs) = take (length xs div bs * bs) xs"
proof (induction bs xs rule: batch_sampler.induct)
  case (1 bs xs)
  show ?case
  proof (cases "bs = 0 \<or> length xs < bs")
    case True
    then show ?thesis by auto
  next
    case False
    then have d: "length xs div bs = Suc ((length xs - bs) div bs)"
      by (simp add: le_div_geq)
    have "concat (batch_sampler bs xs) = take bs xs @ concat (batch_sampler bs (drop bs xs))"
      using False by simp
    also have "\<dots> = take bs xs @ take ((length xs - bs) div bs * bs) (drop bs xs)"
      using 1 False by simp
    also have "\<dots> = take (bs + (length xs - bs) div bs * bs) xs"
      by (simp add: take_add)
    finally show ?thesis by (simp add: d)
  qed
qed

lemma concat_nd_iterate:
  "0 < nd_batch_size it \<Longrightarrow> c \<le> length (nd_data it) \<Longrightarrow>
   concat (nd_iterate it c) =
     drop c (nd_data it) @
     take ((nd_batch_size it - (length (nd_data it) - c) mod nd_batch_size it) mod nd_batch_size it)
       (nd_data it)"
proof (induction it c rule: nd_iterate.induct)
  case (1 it c)
  let ?bs = "nd_batch_size it" and ?xs = "nd_data it"
  let ?n = "length ?xs"
  show ?case
  proof (cases "c < ?n")
    case False
    with 1 show ?thesis by simp
  next
    case True
    show ?thesis
    proof (cases "c + ?bs \<le> ?n")
      case le: True
      have m: "(?n - (c + ?bs)) mod ?bs = (?n - c) mod ?bs"
        using le by (metis add.commute diff_diff_left le_mod_geq add_le_imp_le_diff
            le_add_diff_inverse nat_add_left_cancel_le)
      have j: "take ?bs (drop c ?xs) @ drop (c + ?bs) ?xs = drop c ?xs"
        by (metis add.commute append_take_drop_id drop_drop)
      have "concat (nd_iterate it c) = take ?bs (drop c ?xs) @ concat (nd_iterate it (c + ?bs))"
        using True le 1 by (simp add: getdata_def)
      also have "\<dots> = (take ?bs (drop c ?xs) @ drop (c + ?bs) ?xs)
            @ take ((?bs - (?n - c) mod ?bs) mod ?bs) ?xs"
        using 1 True le m by simp
      finally show ?thesis by (simp only: j)
    next
      case gt: False
      with "1.prems" have lt: "?n - c < ?bs" by arith
      then have s: "(?n - c) mod ?bs = ?n - c" by simp
      have "?bs - (?n - c) < ?bs" using True lt by arith
      then have "(?bs - (?n - c)) mod ?bs = ?bs - (?n - c)" by simp
      also have "\<dots> = ?bs + c - ?n" using True by arith
      finally have p: "(?bs - (?n - c)) mod ?bs = ?bs + c - ?n" .
      have "nd_iterate it (c + ?bs) = []"
        using gt by (simp add: nd_iterate.simps[of it "c + ?bs"])
      then have "concat (nd_iterate it c) = drop c ?xs @ take (?bs + c - ?n) ?xs"
        using True gt 1 by (simp add: getdata_def)
      then show ?thesis by (simp add: s p)
    qed
  qed
qed

section \<open>Properties of the evaluation loop\<close>

lemma count_agree:
  "length (filter (\<lambda>(p, l). p = l) (zip (map argmax (map score (map rs (map fst b)))) (map snd b)))
   = length (filter (\<lambda>(x, l). argmax (score (rs x)) = l) b)"
  by (induction b) auto

lemma evaluate_batches_run:
  assumes "\<forall>b\<in>set batches. forward lib p (map rs (map fst b)) = Inr (map score (map rs (map fst b)))"
  shows "evaluate_batches lib rs p batches acc w =
    (Inr \<lparr>sum_metric = sum_metric acc + length (filter (\<lambda>(x, l). argmax (score (rs x)) = l) (concat batches)),
          num_inst = num_inst acc + length (concat batches)\<rparr>,
     w\<lparr>calls := calls w @ map (\<lambda>b. EvForward (recording w) (length b)) batches\<rparr>)"
  using assms
proof (induction batches arbitrary: acc w)
  case Nil
  then show ?case by simp
next
  case (Cons b batches)
  have f: "forward lib p (map rs (map fst b)) = Inr (map score (map rs (map fst b)))"
    using Cons.prems by simp
  have r: "\<forall>b\<in>set batches. forward lib p (map rs (map fst b)) = Inr (map score (map rs (map fst b)))"
    using Cons.prems by simp
  show ?case
    by (simp add: call_net_def f acc_update_def Cons.IH[OF r] count_agree del: map_map)
qed

lemma evaluate_accuracy_run:
  assumes "\<forall>b\<in>set batches. forward lib p (map rs (map fst b)) = Inr (map score (map rs (map fst b)))"
  shows "evaluate_accuracy lib rs batches p w =
         (Inr (fraction (\<lambda>(x, l). argmax (score (rs x)) = l) (concat batches)),
          w\<lparr>calls := calls w @ map (\<lambda>b. EvForward (recording w) (length b)) batches\<rparr>)"
  by (simp add: evaluate_accuracy_def evaluate_batches_run[OF assms] acc_get_def fraction_def)

lemma mnist_iter_built:
  "batch_size \<le> length xs \<Longrightarrow> nd_array_iter xs batch_size = Inr (mnist_iter xs)"
  by (simp add: nd_array_iter_def mnist_iter_def)

lemma nd_array_iter_pass:
  assumes "nd_array_iter xs bs = Inr it" and "0 < bs"
  shows "concat (nd_epoch it) = xs @ take ((bs - length xs mod bs) mod bs) xs"
proof -
  from assms(1) have it: "nd_data it = xs" "nd_batch_size it = bs"
    by (auto simp: nd_array_iter_def split: if_splits)
  from concat_nd_iterate[of it 0] assms(2) it show ?thesis
    by (simp add: nd_epoch_def)
qed

lemma dl_epoch_snd:
  "snd (dl_epoch lib dl w) = (if dl_shuffle dl then w\<lparr>rng := Suc (rng w)\<rparr> else w)"
  by (simp add: dl_epoch_def)

lemma dl_epoch_pass:
  "concat (fst (dl_epoch lib dl w)) =
     (let ys = (if dl_shuffle dl then shuffle lib (rng w) (dl_dataset dl) else dl_dataset dl)
      in take (length ys div dl_batch_size dl * dl_batch_size dl) ys)"
  unfolding dl_epoch_def Let_def
  by (cases "dl_shuffle dl") (simp_all only: if_True if_False fst_conv concat_batch_sampler)

text \<open>
  Claim C3. Let the network give every input its row of class scores, \<open>score\<close>, on each
  batch of a pass over the iterator. Then \<open>evaluate_accuracy\<close> makes one forward pass
  for every batch of the pass and returns the fraction of the samples seen in the pass
  whose predicted class, the argmax of the scores of the input, equals the label; over
  a pass without samples that average is \<open>nan\<close>. This holds for the function on the
  batches of a pass, for the function of the MNIST notebooks on an \<open>NDArrayIter\<close>, where
  the samples seen in the pass are all samples and then those that fill the last batch,
  and for the function of the VGG notebook on a \<open>DataLoader\<close>, where they are the
  samples of the full batches.
\<close>

theorem evaluate_accuracy_fraction:
  "((\<forall>b\<in>set batches. forward lib p (map rs (map fst b)) = Inr (map score (map rs (map fst b)))) \<longrightarrow>
      evaluate_accuracy lib rs batches p w =
        (Inr (fraction (\<lambda>(x, l). argmax (score (rs x)) = l) (concat batches)),
         w\<lparr>calls := calls w @ map (\<lambda>b. EvForward (recording w) (length b)) batches\<rparr>))
   \<and> ((\<forall>b\<in>set (nd_epoch it). forward lib p (map rs (map fst b)) = Inr (map score (map rs (map fst b)))) \<longrightarrow>
      evaluate_accuracy_nd lib rs it p w =
        (Inr (fraction (\<lambda>(x, l). argmax (score (rs x)) = l) (concat (nd_epoch it))),
         w\<lparr>calls := calls w @ map (\<lambda>b. EvForward (recording w) (length b)) (nd_epoch it)\<rparr>))
   \<and> (nd_array_iter xs bs = Inr it \<and> 0 < bs \<longrightarrow>
      concat (nd_epoch it) = xs @ take ((bs - length xs mod bs) mod bs) xs)
   \<and> ((\<forall>b\<in>set (fst (dl_epoch lib dl w)). forward lib p (map fst b) = Inr (map score (map fst b))) \<longrightarrow>
      fst (evaluate_accuracy_dl lib dl p w) =
        Inr (fraction (\<lambda>(x, l). argmax (score x) = l) (concat (fst (dl_epoch lib dl w))))
      \<and> calls (snd (evaluate_accuracy_dl lib dl p w)) =
        calls w @ map (\<lambda>b. EvForward (recording w) (length b)) (fst (dl_epoch lib dl w)))
   \<and> concat (fst (dl_epoch lib dl w)) =
       (let ys = (if dl_shuffle dl then shuffle lib (rng w) (dl_dataset dl) else dl_dataset dl)
        in take (length ys div dl_batch_size dl * dl_batch_size dl) ys)"
proof (intro conjI impI)
  assume "\<forall>b\<in>set batches. forward lib p (map rs (map fst b)) = Inr (map score (map rs (map fst b)))"
  then show "evaluate_accuracy lib rs batches p w =
        (Inr (fraction (\<lambda>(x, l). argmax (score (rs x)) = l) (concat batches)),
         w\<lparr>calls := calls w @ map (\<lambda>b. EvForward (recording w) (length b)) batches\<rparr>)"
    by (rule evaluate_accuracy_run)
next
  assume "\<forall>b\<in>set (nd_epoch it). forward lib p (map rs (map fst b)) = Inr (map score (map rs (map fst b)))"
  then show "evaluate_accuracy_nd lib rs it p w =
        (Inr (fraction (\<lambda>(x, l). argmax (score (rs x)) = l) (concat (nd_epoch it))),
         w\<lparr>calls := calls w @ map (\<lambda>b. EvForward (recording w) (length b)) (nd_epoch it)\<rparr>)"
    unfolding evaluate_accuracy_nd_def by (rule evaluate_accuracy_run)
next
  assume "nd_array_iter xs bs = Inr it \<and> 0 < bs"
  then show "concat (nd_epoch it) = xs @ take ((bs - length xs mod bs) mod bs) xs"
    using nd_array_iter_pass by blast
next
  assume h: "\<forall>b\<in>set (fst (dl_epoch lib dl w)). forward lib p (map fst b) = Inr (map score (map fst b))"
  obtain batches w0 where d: "dl_epoch lib dl w = (batches, w0)" by (cases "dl_epoch lib dl w")
  from dl_epoch_snd[of lib dl w] d
  have "w0 = (if dl_shuffle dl then w\<lparr>rng := Suc (rng w)\<rparr> else w)" by simp
  then have w0: "calls w0 = calls w" "recording w0 = recording w"
    by (cases "dl_shuffle dl"; simp)+
  from h d have "\<forall>b\<in>set batches. forward lib p (map (\<lambda>x. x) (map fst b)) = Inr (map score (map (\<lambda>x. x) (map fst b)))"
    by simp
  from evaluate_accuracy_run[OF this, of w0] d w0
  show "fst (evaluate_accuracy_dl lib dl p w) =
        Inr (fraction (\<lambda>(x, l). argmax (score x) = l) (concat (fst (dl_epoch lib dl w))))"
    and "calls (snd (evaluate_accuracy_dl lib dl p w)) =
        calls w @ map (\<lambda>b. EvForward (recording w) (length b)) (fst (dl_epoch lib dl w))"
    by (simp_all add: evaluate_accuracy_dl_def)
next
  show "concat (fst (dl_epoch lib dl w)) =
       (let ys = (if dl_shuffle dl then shuffle lib (rng w) (dl_dataset dl) else dl_dataset dl)
        in take (length ys div dl_batch_size dl * dl_batch_size dl) ys)"
    by (rule dl_epoch_pass)
qed

lemma three_by_two_pass: "nd_epoch three_by_two = [[(0, 0), (1, 0)], [(2, 0), (0, 0)]]"
  by (simp add: nd_epoch_def nd_iterate.simps getdata_def three_by_two_def)

lemma discarding_loader_pass:
  "dl_epoch lib discarding_loader w = ([[(0, 0), (1, 0)]], w)"
  by (simp add: dl_epoch_def discarding_loader_def batch_sampler.simps)

theorem evaluate_accuracy_fraction_witness:
  "forward toy_lib 3 [0, 5] = Inr (map (toy_score 3) [0, 5])
   \<and> forward toy_lib 3 [1] = Inr (map (toy_score 3) [1])
   \<and> evaluate_accuracy toy_lib (\<lambda>x. x) [[(0, 0), (5, 1)], [(1, 1)]] 3 (kernel_state ''net'' 3 0)
       = (Inr (Fin (2 / 3)), (kernel_state ''net'' 3 0)\<lparr>calls := [EvForward False 2, EvForward False 1]\<rparr>)
   \<and> nd_epoch three_by_two = [[(0, 0), (1, 0)], [(2, 0), (0, 0)]]
   \<and> forward toy_lib 2 [0, 1] = Inr (map (toy_score 2) [0, 1])
   \<and> forward toy_lib 2 [2, 0] = Inr (map (toy_score 2) [2, 0])
   \<and> evaluate_accuracy_nd toy_lib (\<lambda>x. x) three_by_two 2 (kernel_state ''net'' 2 0)
       = (Inr (Fin (3 / 4)), (kernel_state ''net'' 2 0)\<lparr>calls := [EvForward False 2, EvForward False 2]\<rparr>)
   \<and> nd_array_iter [(0, 0), (1, 0), (2, 0)] 2 = Inr three_by_two \<and> (0::nat) < 2
   \<and> concat (nd_epoch three_by_two) = [(0, 0), (1, 0), (2, 0), (0::nat, 0::nat)]
   \<and> fst (dl_epoch toy_lib discarding_loader (kernel_state ''vgg_net'' (1::nat) (0::nat))) = [[(0, 0), (1, 0)]]
   \<and> forward toy_lib 1 [0, 1] = Inr (map (toy_score 1) [0, 1])
   \<and> fst (evaluate_accuracy_dl toy_lib discarding_loader 1 (kernel_state ''vgg_net'' 1 0)) = Inr (Fin (1 / 2))
   \<and> calls (snd (evaluate_accuracy_dl toy_lib discarding_loader 1 (kernel_state ''vgg_net'' 1 0)))
       = [EvForward False 2]"
proof -
  let ?K3 = "kernel_state ''net'' (3::nat) (0::nat)"
  let ?K2 = "kernel_state ''net'' (2::nat) (0::nat)"
  let ?V = "kernel_state ''vgg_net'' (1::nat) (0::nat)"
  have f: "forward toy_lib 3 [0, 5] = Inr (map (toy_score 3) [0, 5])"
    "forward toy_lib 3 [1] = Inr (map (toy_score 3) [1])"
    "forward toy_lib 2 [0, 1] = Inr (map (toy_score 2) [0, 1])"
    "forward toy_lib 2 [2, 0] = Inr (map (toy_score 2) [2, 0])"
    "forward toy_lib 1 [0, 1] = Inr (map (toy_score 1) [0, 1])"
    by (simp_all add: toy_lib_def toy_score_def)
  have h1: "\<forall>b\<in>set [[(0, 0), (5, 1)], [(1, 1)]].
      forward toy_lib 3 (map (\<lambda>x. x) (map fst b)) = Inr (map (toy_score 3) (map (\<lambda>x. x) (map fst b)))"
    using f by simp
  have h2: "\<forall>b\<in>set (nd_epoch three_by_two).
      forward toy_lib 2 (map (\<lambda>x. x) (map fst b)) = Inr (map (toy_score 2) (map (\<lambda>x. x) (map fst b)))"
    using f by (simp add: three_by_two_pass)
  have h3: "nd_array_iter [(0, 0), (1, 0), (2, 0)] 2 = Inr three_by_two \<and> (0::nat) < 2"
    by (simp add: nd_array_iter_def three_by_two_def)
  have h4: "\<forall>b\<in>set (fst (dl_epoch toy_lib discarding_loader ?V)).
      forward toy_lib 1 (map fst b) = Inr (map (toy_score 1) (map fst b))"
    using f by (simp add: discarding_loader_pass)
  note t1 = evaluate_accuracy_fraction[where batches = "[[(0, 0), (5, 1)], [(1, 1)]]" and lib = toy_lib
      and p = 3 and rs = "\<lambda>x. x" and score = "toy_score 3" and w = ?K3, THEN conjunct1, THEN mp, OF h1]
  note t2 = evaluate_accuracy_fraction[where it = three_by_two and lib = toy_lib
      and p = 2 and rs = "\<lambda>x. x" and score = "toy_score 2" and w = ?K2,
      THEN conjunct2, THEN conjunct1, THEN mp, OF h2]
  note t3 = evaluate_accuracy_fraction[where it = three_by_two and xs = "[(0, 0), (1, 0), (2, 0)]"
      and bs = 2, THEN conjunct2, THEN conjunct2, THEN conjunct1, THEN mp, OF h3]
  note t4 = evaluate_accuracy_fraction[where dl = discarding_loader and lib = toy_lib
      and p = 1 and score = "toy_score 1" and w = ?V,
      THEN conjunct2, THEN conjunct2, THEN conjunct2, THEN conjunct1, THEN mp, OF h4]
  have c1: "evaluate_accuracy toy_lib (\<lambda>x. x) [[(0, 0), (5, 1)], [(1, 1)]] 3 ?K3
       = (Inr (Fin (2 / 3)), ?K3\<lparr>calls := [EvForward False 2, EvForward False 1]\<rparr>)"
    using t1 by (simp add: fraction_def toy_score_def kernel_state_def)
  have c2: "evaluate_accuracy_nd toy_lib (\<lambda>x. x) three_by_two 2 ?K2
       = (Inr (Fin (3 / 4)), ?K2\<lparr>calls := [EvForward False 2, EvForward False 2]\<rparr>)"
    using t2 by (simp add: three_by_two_pass fraction_def toy_score_def kernel_state_def)
  have c3: "concat (nd_epoch three_by_two) = [(0, 0), (1, 0), (2, 0), (0::nat, 0::nat)]"
    using t3 by simp
  have c4: "fst (evaluate_accuracy_dl toy_lib discarding_loader 1 ?V) = Inr (Fin (1 / 2))"
    "calls (snd (evaluate_accuracy_dl toy_lib discarding_loader 1 ?V)) = [EvForward False 2]"
    using t4 by (simp_all add: discarding_loader_pass fraction_def toy_score_def kernel_state_def)
  show ?thesis
    using f c1 three_by_two_pass c2 h3 c3 c4 by (simp add: discarding_loader_pass)
qed

lemma evaluate_batches_frame:
  "\<exists>k\<le>length batches. snd (evaluate_batches lib rs p batches acc w) =
      w\<lparr>calls := calls w @ map (\<lambda>b. EvForward (recording w) (length b)) (take k batches)\<rparr>"
proof (induction batches arbitrary: acc w)
  case Nil
  show ?case by simp
next
  case (Cons b batches)
  let ?w1 = "w\<lparr>calls := calls w @ [EvForward (recording w) (length b)]\<rparr>"
  have one: "?w1 = w\<lparr>calls := calls w @ map (\<lambda>b. EvForward (recording w) (length b)) (take 1 (b # batches))\<rparr>"
    by simp
  show ?case
  proof (cases "forward lib p (map rs (map fst b))")
    case (Inl x)
    then have "snd (evaluate_batches lib rs p (b # batches) acc w) = ?w1"
      by (simp add: call_net_def)
    with one show ?thesis by (intro exI[of _ 1]) simp
  next
    case (Inr out)
    show ?thesis
    proof (cases "acc_update (map argmax out) (map snd b) acc")
      case (Inl x)
      then have "snd (evaluate_batches lib rs p (b # batches) acc w) = ?w1"
        using Inr by (simp add: call_net_def)
      with one show ?thesis by (intro exI[of _ 1]) simp
    next
      case (Inr acc')
      from Cons.IH[of acc' ?w1] obtain k where k: "k \<le> length batches"
        "snd (evaluate_batches lib rs p batches acc' ?w1) =
           ?w1\<lparr>calls := calls ?w1 @ map (\<lambda>b. EvForward (recording ?w1) (length b)) (take k batches)\<rparr>"
        by blast
      have "snd (evaluate_batches lib rs p (b # batches) acc w) =
            w\<lparr>calls := calls w @ map (\<lambda>b. EvForward (recording w) (length b)) (take (Suc k) (b # batches))\<rparr>"
        using Inr \<open>forward lib p (map rs (map fst b)) = Inr out\<close> k(2)
        by (simp add: call_net_def)
      then show ?thesis using k(1) by (intro exI[of _ "Suc k"]) simp
    qed
  qed
qed

lemma evaluate_accuracy_snd:
  "snd (evaluate_accuracy lib rs batches p w) =
   snd (evaluate_batches lib rs p batches \<lparr>sum_metric = 0, num_inst = 0\<rparr> w)"
  by (simp add: evaluate_accuracy_def split: prod.splits sum.splits)

lemma evaluate_accuracy_frame:
  "\<exists>k\<le>length batches. snd (evaluate_accuracy lib rs batches p w) =
      w\<lparr>calls := calls w @ map (\<lambda>b. EvForward (recording w) (length b)) (take k batches)\<rparr>"
  unfolding evaluate_accuracy_snd by (rule evaluate_batches_frame)

lemma evaluate_accuracy_nets: "nets (snd (evaluate_accuracy lib rs bs p w)) = nets w"
proof -
  from evaluate_accuracy_frame[of bs lib rs p w] obtain k where
    "snd (evaluate_accuracy lib rs bs p w) =
       w\<lparr>calls := calls w @ map (\<lambda>b. EvForward (recording w) (length b)) (take k bs)\<rparr>"
    by blast
  then show ?thesis by simp
qed

text \<open>
  Claim C9. \<open>evaluate_accuracy\<close> changes nothing in the state but the list of calls, to
  which it adds forward passes only, at most one per batch and each with the recording
  flag as the caller left it: no \<open>backward\<close>, no trainer step, and recording is never
  switched on. Called while autograd is not recording, as the training loops do, all its
  forward passes are outside of recording. The parameters of every network are what
  they were, also for the variants that read an \<open>NDArrayIter\<close> or a \<open>DataLoader\<close>.
\<close>

theorem evaluate_accuracy_keeps_parameters:
  "(\<exists>k\<le>length batches. snd (evaluate_accuracy lib rs batches p w) =
       w\<lparr>calls := calls w @ map (\<lambda>b. EvForward (recording w) (length b)) (take k batches)\<rparr>)
   \<and> (\<not> recording w \<longrightarrow>
        (\<exists>k\<le>length batches. calls (snd (evaluate_accuracy lib rs batches p w)) =
           calls w @ map (\<lambda>b. EvForward False (length b)) (take k batches)))
   \<and> nets (snd (evaluate_accuracy lib rs batches p w)) = nets w
   \<and> grads (snd (evaluate_accuracy lib rs batches p w)) = grads w
   \<and> nets (snd (evaluate_accuracy_nd lib rs it p w)) = nets w
   \<and> nets (snd (evaluate_accuracy_dl lib dl p w)) = nets w"
proof -
  from evaluate_accuracy_frame[of batches lib rs p w] obtain k where k: "k \<le> length batches"
    "snd (evaluate_accuracy lib rs batches p w) =
       w\<lparr>calls := calls w @ map (\<lambda>b. EvForward (recording w) (length b)) (take k batches)\<rparr>"
    by blast
  have a: "\<exists>k\<le>length batches. snd (evaluate_accuracy lib rs batches p w) =
       w\<lparr>calls := calls w @ map (\<lambda>b. EvForward (recording w) (length b)) (take k batches)\<rparr>"
    using k by blast
  have b: "\<not> recording w \<longrightarrow>
        (\<exists>k\<le>length batches. calls (snd (evaluate_accuracy lib rs batches p w)) =
           calls w @ map (\<lambda>b. EvForward False (length b)) (take k batches))"
  proof
    assume "\<not> recording w"
    with k(2) have "calls (snd (evaluate_accuracy lib rs batches p w)) =
           calls w @ map (\<lambda>b. EvForward False (length b)) (take k batches)" by simp
    with k(1) show "\<exists>k\<le>length batches. calls (snd (evaluate_accuracy lib rs batches p w)) =
           calls w @ map (\<lambda>b. EvForward False (length b)) (take k batches)" by blast
  qed
  have g: "grads (snd (evaluate_accuracy lib rs batches p w)) = grads w"
    using k(2) by simp
  have d: "nets (snd (evaluate_accuracy_dl lib dl p w)) = nets w"
    by (simp add: evaluate_accuracy_dl_def dl_epoch_def evaluate_accuracy_nets)
  show ?thesis using a b g d
    by (simp add: evaluate_accuracy_nd_def evaluate_accuracy_nets)
qed

theorem evaluate_accuracy_keeps_parameters_witness:
  "\<not> recording (kernel_state ''net'' (3::nat) (0::nat))
   \<and> calls (snd (evaluate_accuracy toy_lib (\<lambda>x. x) [[(0, 0), (5, 1)], [(1, 1)]] 3 (kernel_state ''net'' 3 0)))
       = [EvForward False 2, EvForward False 1]
   \<and> nets (snd (evaluate_accuracy toy_lib (\<lambda>x. x) [[(0, 0), (5, 1)], [(1, 1)]] 3 (kernel_state ''net'' 3 0)))
       ''net'' = Some 3"
proof -
  let ?K = "kernel_state ''net'' (3::nat) (0::nat)"
  let ?bs = "[[(0, 0), (5, 1)], [(1::nat, 1::nat)]]"
  have h: "\<not> recording ?K" by (simp add: kernel_state_def)
  note t = evaluate_accuracy_keeps_parameters[of ?bs toy_lib "\<lambda>x. x" 3 ?K]
  from t[THEN conjunct2, THEN conjunct1] h obtain k where k: "k \<le> length ?bs"
    "calls (snd (evaluate_accuracy toy_lib (\<lambda>x. x) ?bs 3 ?K)) =
       calls ?K @ map (\<lambda>b. EvForward False (length b)) (take k ?bs)" by blast
  have e: "calls (snd (evaluate_accuracy toy_lib (\<lambda>x. x) ?bs 3 ?K)) = [EvForward False 2, EvForward False 1]"
    by (simp add: evaluate_accuracy_def toy_lib_def call_net_def acc_update_def kernel_state_def)
  from t[THEN conjunct2, THEN conjunct2, THEN conjunct1]
  have "nets (snd (evaluate_accuracy toy_lib (\<lambda>x. x) ?bs 3 ?K)) = nets ?K" .
  then show ?thesis using h e by (simp add: kernel_state_def)
qed

section \<open>Order of the calls of the training loops\<close>

lemma run_phases_append:
  "run_phases ph (xs @ ys) =
     (case run_phases ph xs of None \<Rightarrow> None | Some ph' \<Rightarrow> run_phases ph' ys)"
  by (induction xs arbitrary: ph) (auto split: option.splits)

lemma run_phases_eval: "run_phases Idle (map (\<lambda>b. EvForward False (f b)) bs) = Some Idle"
  by (induction bs) auto

lemma batch_step_calls:
  "batch_step lib name sc e data label w = (Inr u, w') \<Longrightarrow>
   calls w' = calls w @ [EvForward True (length data), EvLoss True, EvBackward,
                         EvStep (length data), EvMovingLoss]"
  by (auto simp: batch_step_def Let_def call_net_def call_loss_def loss_backward_def
      trainer_step_def lookup_net_def split: sum.splits option.splits if_splits)

lemma batch_step_prefix:
  "\<exists>k. calls (snd (batch_step lib name sc e data label w)) =
     calls w @ take k [EvForward True (length data), EvLoss True, EvBackward,
                       EvStep (length data), EvMovingLoss]"
proof -
  let ?evs = "[EvForward True (length data), EvLoss True, EvBackward,
                       EvStep (length data), EvMovingLoss]"
  have "calls (snd (batch_step lib name sc e data label w)) \<in>
     {calls w @ take 0 ?evs, calls w @ take 1 ?evs, calls w @ take 2 ?evs, calls w @ take 4 ?evs,
      calls w @ take 5 ?evs}"
    by (auto simp: batch_step_def Let_def call_net_def call_loss_def loss_backward_def
      trainer_step_def lookup_net_def split: sum.splits option.splits if_splits)
  then show ?thesis by blast
qed

lemma batch_step_recording:
  "recording (snd (batch_step lib name sc e data label w)) = recording w"
  by (auto simp: batch_step_def Let_def call_net_def call_loss_def loss_backward_def
      trainer_step_def lookup_net_def split: sum.splits option.splits if_splits)

lemma in_order_prefix:
  "run_phases Idle evs = Some Idle \<Longrightarrow>
   in_order (evs @ take k [EvForward True n, EvLoss True, EvBackward, EvStep n, EvMovingLoss])"
proof -
  assume a: "run_phases Idle evs = Some Idle"
  have "k = 0 \<or> k = 1 \<or> k = 2 \<or> k = 3 \<or> k = 4 \<or> 5 \<le> k" by arith
  then show ?thesis
    by (elim disjE) (simp_all add: in_order_def run_phases_append a numeral_nat)
qed

lemma ordered_result_simps [simp]:
  "ordered_result (Inl x, w) = in_order (calls w)"
  "ordered_result (Inr u, w) = between_batches w"
  by (simp_all add: ordered_result_def)

lemma batch_step_order:
  assumes "between_batches w"
  shows "ordered_result (batch_step lib name sc e data label w)"
proof (cases "batch_step lib name sc e data label w")
  case (Pair r w')
  show ?thesis
  proof (cases r)
    case (Inl x)
    from batch_step_prefix[of lib name sc e data label w] Pair
    obtain k where "calls w' = calls w @ take k [EvForward True (length data), EvLoss True, EvBackward,
                       EvStep (length data), EvMovingLoss]" by auto
    then show ?thesis using assms Pair Inl in_order_prefix[of "calls w" k "length data"]
      by (simp add: between_batches_def)
  next
    case (Inr u)
    from batch_step_calls[of lib name sc e data label w u w'] Pair Inr
    have "calls w' = calls w @ [EvForward True (length data), EvLoss True, EvBackward,
                         EvStep (length data), EvMovingLoss]" by simp
    moreover have "recording w' = recording w"
      using batch_step_recording[of lib name sc e data label w] Pair by simp
    ultimately show ?thesis using assms Pair Inr
      by (simp add: between_batches_def run_phases_append)
  qed
qed

lemma between_batches_var_i [simp]: "between_batches (w\<lparr>var_i := v\<rparr>) = between_batches w"
  by (simp add: between_batches_def)

lemma between_batches_in_order: "between_batches w \<Longrightarrow> in_order (calls w)"
  by (simp add: between_batches_def in_order_def)

lemma train_enumerate_order:
  "between_batches w \<Longrightarrow> ordered_result (train_enumerate lib name rs sc e i batches w)"
proof (induction batches arbitrary: i w)
  case Nil
  then show ?case by simp
next
  case (Cons b batches)
  from Cons.prems have bb: "between_batches (w\<lparr>var_i := Some i\<rparr>)" by simp
  show ?case
  proof (cases "batch_step lib name sc e (map rs (map fst b)) (map snd b) (w\<lparr>var_i := Some i\<rparr>)")
    case (Pair r w1)
    with batch_step_order[OF bb, of lib name sc e "map rs (map fst b)" "map snd b"]
    have o: "ordered_result (r, w1)" by simp
    show ?thesis
    proof (cases r)
      case (Inl x)
      with o Pair show ?thesis by simp
    next
      case (Inr u)
      with o have "between_batches w1" by simp
      from Cons.IH[OF this] Pair Inr show ?thesis by simp
    qed
  qed
qed

lemma train_plain_order:
  "between_batches w \<Longrightarrow> ordered_result (train_plain lib name sc e batches w)"
proof (induction batches arbitrary: w)
  case Nil
  then show ?case by simp
next
  case (Cons b batches)
  show ?case
  proof (cases "batch_step lib name sc e (map fst b) (map snd b) w")
    case (Pair r w1)
    with batch_step_order[OF Cons.prems, of lib name sc e "map fst b" "map snd b"]
    have o: "ordered_result (r, w1)" by simp
    show ?thesis
    proof (cases r)
      case (Inl x)
      with o Pair show ?thesis by simp
    next
      case (Inr u)
      with o have "between_batches w1" by simp
      from Cons.IH[OF this] Pair Inr show ?thesis by simp
    qed
  qed
qed

lemma evaluate_accuracy_order:
  assumes "between_batches w"
  shows "between_batches (snd (evaluate_accuracy lib rs batches p w))"
proof -
  from assms have nr: "\<not> recording w" by (simp add: between_batches_def)
  from evaluate_accuracy_frame[of batches lib rs p w] obtain k where
    "snd (evaluate_accuracy lib rs batches p w) =
       w\<lparr>calls := calls w @ map (\<lambda>b. EvForward (recording w) (length b)) (take k batches)\<rparr>"
    by blast
  then show ?thesis using assms
    by (simp add: between_batches_def run_phases_append run_phases_eval)
qed

lemma evaluate_accuracy_ordered:
  "between_batches w \<Longrightarrow> ordered_result (evaluate_accuracy lib rs batches p w)"
  using evaluate_accuracy_order[of w lib rs batches p]
  by (cases "evaluate_accuracy lib rs batches p w"; cases "fst (evaluate_accuracy lib rs batches p w)")
     (auto simp: between_batches_in_order)

lemma print_report_order:
  "between_batches w \<Longrightarrow> ordered_result (print_report e a b w)"
  by (auto simp: print_report_def between_batches_def in_order_def split: option.splits)

lemma ordered_seq:
  assumes "ordered_result m" and "\<And>u w'. between_batches w' \<Longrightarrow> ordered_result (f u w')"
  shows "ordered_result (case m of (Inl x, w1) \<Rightarrow> (Inl x, w1) | (Inr u, w1) \<Rightarrow> f u w1)"
  using assms by (cases m; cases "fst m") auto

lemma ordered_lookup:
  assumes "between_batches w" and "\<And>p. ordered_result (f p)"
  shows "ordered_result (case lookup_net w n of Inl x \<Rightarrow> (Inl x, w) | Inr p \<Rightarrow> f p)"
  using assms by (cases "lookup_net w n") (auto simp: between_batches_in_order)

lemma mnist_epoch_order:
  assumes "between_batches w"
  shows "ordered_result (mnist_epoch lib rs sc train_data test_data e w)"
  unfolding mnist_epoch_def evaluate_accuracy_nd_def
  by (intro ordered_seq ordered_lookup train_enumerate_order evaluate_accuracy_ordered
      print_report_order assms)

lemma dl_epoch_order:
  "between_batches w \<Longrightarrow> between_batches (snd (dl_epoch lib dl w))"
  by (simp add: dl_epoch_def between_batches_def)

lemma evaluate_accuracy_dl_ordered:
  "between_batches w \<Longrightarrow> ordered_result (evaluate_accuracy_dl lib dl p w)"
  using dl_epoch_order[of w lib dl]
  by (cases "dl_epoch lib dl w") (simp add: evaluate_accuracy_dl_def evaluate_accuracy_ordered)

lemma vgg_epoch_order:
  assumes "between_batches w"
  shows "ordered_result (vgg_epoch lib sc train_data test_data e w)"
proof (cases "dl_epoch lib train_data w")
  case (Pair batches w0)
  with dl_epoch_order[OF assms, of lib train_data] have b: "between_batches w0" by simp
  show ?thesis
    unfolding vgg_epoch_def Pair prod.case
    by (intro ordered_seq ordered_lookup train_plain_order evaluate_accuracy_dl_ordered
        print_report_order b)
qed

lemma for_epochs_order:
  assumes "\<And>e w. between_batches w \<Longrightarrow> ordered_result (body e w)"
  shows "between_batches w \<Longrightarrow> ordered_result (for_epochs body es w)"
proof (induction es arbitrary: w)
  case Nil
  then show ?case by simp
next
  case (Cons e es)
  show ?case
    unfolding for_epochs.simps
    by (intro ordered_seq assms Cons.prems Cons.IH)
qed

lemma ordered_result_in_order: "ordered_result r \<Longrightarrow> in_order (calls (snd r))"
  by (cases r; cases "fst r") (auto simp: between_batches_in_order)

text \<open>
  For the loops of the MNIST notebooks: when the library does not fail and the moving
  loss can be read, the body on a mini-batch ends normally, having made exactly these
  calls in this order: forward pass and loss under recording, \<open>backward\<close>, one trainer
  step with the number of inputs, the assignment to \<open>moving_loss\<close>.
\<close>

lemma batch_step_returns:
  assumes "var_i w = Some i" and "nets w name = Some p" and "forward lib p data = Inr out"
    and "loss_fn lib out label = Inr loss" and "i = 0 \<and> e = 0 \<or> var_moving_loss w \<noteq> None"
  shows "\<exists>w'. batch_step lib name sc e data label w = (Inr (), w') \<and>
           calls w' = calls w @ [EvForward True (length data), EvLoss True, EvBackward,
                                 EvStep (length data), EvMovingLoss]"
  using assms
  by (auto simp: batch_step_def Let_def call_net_def call_loss_def loss_backward_def
      trainer_step_def lookup_net_def split: option.splits)

lemma train_enumerate_calls:
  "train_enumerate lib name rs sc e i batches w = (Inr u, w') \<Longrightarrow>
   calls w' = calls w @
     concat (map (\<lambda>b. [EvForward True (length b), EvLoss True, EvBackward,
                        EvStep (length b), EvMovingLoss]) batches)"
proof (induction batches arbitrary: i w)
  case Nil
  then show ?case by simp
next
  case (Cons b batches)
  obtain r w1 where s: "batch_step lib name sc e (map rs (map fst b)) (map snd b) (w\<lparr>var_i := Some i\<rparr>) = (r, w1)"
    by (cases "batch_step lib name sc e (map rs (map fst b)) (map snd b) (w\<lparr>var_i := Some i\<rparr>)")
  with Cons.prems obtain v where r: "r = Inr v"
    by (cases r) auto
  from batch_step_calls[OF s[unfolded r]]
  have c: "calls w1 = calls w @ [EvForward True (length b), EvLoss True, EvBackward,
                                 EvStep (length b), EvMovingLoss]"
    by simp
  from Cons.prems s r have "train_enumerate lib name rs sc e (Suc i) batches w1 = (Inr u, w')"
    by simp
  from Cons.IH[OF this] c show ?case by simp
qed

text \<open>
  Whatever the library and the data, the calls of a whole run of each of the three
  training cells, started between two mini-batches, are accepted by the reader of the
  calls, also when the run ends by an exception: no assignment to \<open>moving_loss\<close> comes
  before the trainer step of its mini-batch.
\<close>

lemma training_calls_ordered:
  assumes "between_batches w"
  shows "in_order (calls (snd (cnn_training lib train_it test_it w)))"
    and "in_order (calls (snd (logistic_training lib reshape train_it test_it w)))"
    and "in_order (calls (snd (vgg_training lib train_dl test_dl w)))"
proof -
  have l: "between_batches (w\<lparr>var_moving_loss := Some (Fin 0)\<rparr>)"
    using assms by (simp add: between_batches_def)
  show "in_order (calls (snd (cnn_training lib train_it test_it w)))"
    unfolding cnn_training_def
    by (intro ordered_result_in_order for_epochs_order mnist_epoch_order assms)
  show "in_order (calls (snd (logistic_training lib reshape train_it test_it w)))"
    unfolding logistic_training_def
    by (intro ordered_result_in_order for_epochs_order mnist_epoch_order l)
  show "in_order (calls (snd (vgg_training lib train_dl test_dl w)))"
    unfolding vgg_training_def
    by (intro ordered_result_in_order for_epochs_order vgg_epoch_order assms)
qed

section \<open>The moving loss influences nothing else\<close>

lemma forget_loss_eq_iff:
  "forget_loss w1 = forget_loss w2 \<longleftrightarrow>
     nets w1 = nets w2 \<and> grads w1 = grads w2 \<and> recording w1 = recording w2 \<and>
     var_i w1 = var_i w2 \<and> rng w1 = rng w2 \<and> calls w1 = calls w2 \<and>
     (var_moving_loss w1 = None \<longleftrightarrow> var_moving_loss w2 = None) \<and>
     map (\<lambda>r. r\<lparr>rep_loss := NaN\<rparr>) (printed w1) = map (\<lambda>r. r\<lparr>rep_loss := NaN\<rparr>) (printed w2) \<and>
     world.more w1 = world.more w2"
  by (cases w1; cases w2) (auto simp: forget_loss_def)

lemma same_outcome_simps [simp]:
  "same_outcome (Inl x, w1) (Inl y, w2) \<longleftrightarrow> x = y \<and> forget_loss w1 = forget_loss w2"
  "same_outcome (Inr u, w1) (Inr v, w2) \<longleftrightarrow> u = v \<and> forget_loss w1 = forget_loss w2"
  "\<not> same_outcome (Inl x, w1) (Inr v, w2)"
  "\<not> same_outcome (Inr u, w1) (Inl y, w2)"
  by (simp_all add: same_outcome_def)

lemma batch_step_forget:
  assumes "forget_loss w1 = forget_loss w2"
  shows "same_outcome (batch_step lib name sc1 e data label w1)
                      (batch_step lib name sc2 e data label w2)"
  using assms unfolding forget_loss_eq_iff same_outcome_def
  by (auto simp: batch_step_def Let_def call_net_def call_loss_def loss_backward_def
      trainer_step_def lookup_net_def forget_loss_eq_iff split: sum.splits option.splits)

lemma same_seq:
  assumes "same_outcome m1 m2"
    and "\<And>u w1 w2. forget_loss w1 = forget_loss w2 \<Longrightarrow> same_outcome (f1 u w1) (f2 u w2)"
  shows "same_outcome (case m1 of (Inl x, w) \<Rightarrow> (Inl x, w) | (Inr u, w) \<Rightarrow> f1 u w)
                      (case m2 of (Inl x, w) \<Rightarrow> (Inl x, w) | (Inr u, w) \<Rightarrow> f2 u w)"
  using assms by (cases m1; cases m2; cases "fst m1"; cases "fst m2") auto

lemma same_lookup:
  assumes "forget_loss w1 = forget_loss w2" and "\<And>p. same_outcome (f1 p) (f2 p)"
  shows "same_outcome (case lookup_net w1 n of Inl x \<Rightarrow> (Inl x, w1) | Inr p \<Rightarrow> f1 p)
                      (case lookup_net w2 n of Inl x \<Rightarrow> (Inl x, w2) | Inr p \<Rightarrow> f2 p)"
proof -
  from assms(1) have "nets w1 = nets w2" by (simp add: forget_loss_eq_iff)
  then have "lookup_net w1 n = lookup_net w2 n" by (simp add: lookup_net_def)
  then show ?thesis using assms by (cases "lookup_net w2 n") auto
qed

lemma forget_loss_var_i:
  "forget_loss w1 = forget_loss w2 \<Longrightarrow> forget_loss (w1\<lparr>var_i := v\<rparr>) = forget_loss (w2\<lparr>var_i := v\<rparr>)"
  by (simp add: forget_loss_eq_iff)

lemma train_enumerate_forget:
  "forget_loss w1 = forget_loss w2 \<Longrightarrow>
   same_outcome (train_enumerate lib name rs sc1 e i batches w1)
                (train_enumerate lib name rs sc2 e i batches w2)"
proof (induction batches arbitrary: i w1 w2)
  case Nil
  then show ?case by simp
next
  case (Cons b batches)
  show ?case
    unfolding train_enumerate.simps
    by (intro same_seq batch_step_forget forget_loss_var_i Cons.prems Cons.IH)
qed

lemma train_plain_forget:
  "forget_loss w1 = forget_loss w2 \<Longrightarrow>
   same_outcome (train_plain lib name sc1 e batches w1) (train_plain lib name sc2 e batches w2)"
proof (induction batches arbitrary: w1 w2)
  case Nil
  then show ?case by simp
next
  case (Cons b batches)
  show ?case
    unfolding train_plain.simps
    by (intro same_seq batch_step_forget Cons.prems Cons.IH)
qed

lemma evaluate_batches_forget:
  "forget_loss w1 = forget_loss w2 \<Longrightarrow>
   same_outcome (evaluate_batches lib rs p batches acc w1) (evaluate_batches lib rs p batches acc w2)"
proof (induction batches arbitrary: acc w1 w2)
  case Nil
  then show ?case by simp
next
  case (Cons b batches)
  let ?d = "map rs (map fst b)"
  have c: "same_outcome (call_net lib p ?d w1) (call_net lib p ?d w2)"
    using Cons.prems by (simp add: call_net_def same_outcome_def forget_loss_eq_iff)
  show ?case
  proof (cases "forward lib p ?d")
    case (Inl x)
    then show ?thesis using Cons.prems
      by (simp add: call_net_def forget_loss_eq_iff)
  next
    case (Inr out)
    have f: "forget_loss (w1\<lparr>calls := calls w1 @ [EvForward (recording w1) (length b)]\<rparr>)
           = forget_loss (w2\<lparr>calls := calls w2 @ [EvForward (recording w2) (length b)]\<rparr>)"
      using Cons.prems by (simp add: forget_loss_eq_iff)
    show ?thesis
    proof (cases "acc_update (map argmax out) (map snd b) acc")
      case (Inl x)
      then show ?thesis using Inr f by (simp add: call_net_def)
    next
      case (Inr acc')
      with \<open>forward lib p ?d = Inr out\<close> Cons.IH[OF f, of acc'] show ?thesis
        by (simp add: call_net_def)
    qed
  qed
qed

lemma evaluate_accuracy_forget:
  "forget_loss w1 = forget_loss w2 \<Longrightarrow>
   same_outcome (evaluate_accuracy lib rs batches p w1) (evaluate_accuracy lib rs batches p w2)"
  using evaluate_batches_forget[of w1 w2 lib rs p batches "\<lparr>sum_metric = 0, num_inst = 0\<rparr>"]
  by (cases "evaluate_batches lib rs p batches \<lparr>sum_metric = 0, num_inst = 0\<rparr> w1";
      cases "evaluate_batches lib rs p batches \<lparr>sum_metric = 0, num_inst = 0\<rparr> w2";
      cases "fst (evaluate_batches lib rs p batches \<lparr>sum_metric = 0, num_inst = 0\<rparr> w1)";
      cases "fst (evaluate_batches lib rs p batches \<lparr>sum_metric = 0, num_inst = 0\<rparr> w2)")
     (auto simp: evaluate_accuracy_def)

lemma print_report_forget:
  "forget_loss w1 = forget_loss w2 \<Longrightarrow>
   same_outcome (print_report e a b w1) (print_report e a b w2)"
  by (auto simp: print_report_def forget_loss_eq_iff split: option.splits)

lemma mnist_epoch_forget:
  assumes "forget_loss w1 = forget_loss w2"
  shows "same_outcome (mnist_epoch lib rs sc1 train_data test_data e w1)
                      (mnist_epoch lib rs sc2 train_data test_data e w2)"
  unfolding mnist_epoch_def evaluate_accuracy_nd_def
  by (intro same_seq same_lookup train_enumerate_forget evaluate_accuracy_forget
      print_report_forget assms)

lemma dl_epoch_forget:
  assumes "forget_loss w1 = forget_loss w2"
  shows "fst (dl_epoch lib dl w1) = fst (dl_epoch lib dl w2)"
    and "forget_loss (snd (dl_epoch lib dl w1)) = forget_loss (snd (dl_epoch lib dl w2))"
  using assms by (simp_all add: dl_epoch_def forget_loss_eq_iff)

lemma evaluate_accuracy_dl_forget:
  assumes "forget_loss w1 = forget_loss w2"
  shows "same_outcome (evaluate_accuracy_dl lib dl p w1) (evaluate_accuracy_dl lib dl p w2)"
  using dl_epoch_forget[OF assms, of lib dl]
  by (cases "dl_epoch lib dl w1"; cases "dl_epoch lib dl w2")
     (simp add: evaluate_accuracy_dl_def evaluate_accuracy_forget)

lemma vgg_epoch_forget:
  assumes "forget_loss w1 = forget_loss w2"
  shows "same_outcome (vgg_epoch lib sc1 train_data test_data e w1)
                      (vgg_epoch lib sc2 train_data test_data e w2)"
proof -
  obtain bs1 v1 where d1: "dl_epoch lib train_data w1 = (bs1, v1)"
    by (cases "dl_epoch lib train_data w1")
  obtain bs2 v2 where d2: "dl_epoch lib train_data w2 = (bs2, v2)"
    by (cases "dl_epoch lib train_data w2")
  from dl_epoch_forget[OF assms, of lib train_data] d1 d2
  have e: "bs1 = bs2" "forget_loss v1 = forget_loss v2" by simp_all
  show ?thesis
    unfolding vgg_epoch_def d1 d2 prod.case e(1)
    by (intro same_seq same_lookup train_plain_forget evaluate_accuracy_dl_forget
        print_report_forget e(2))
qed

lemma for_epochs_forget:
  assumes "\<And>e w1 w2. forget_loss w1 = forget_loss w2 \<Longrightarrow> same_outcome (body1 e w1) (body2 e w2)"
  shows "forget_loss w1 = forget_loss w2 \<Longrightarrow>
         same_outcome (for_epochs body1 es w1) (for_epochs body2 es w2)"
proof (induction es arbitrary: w1 w2)
  case Nil
  then show ?case by simp
next
  case (Cons e es)
  show ?case
    unfolding for_epochs.simps
    by (intro same_seq assms Cons.prems Cons.IH)
qed

lemma accuracies_forget:
  "accuracies w = map (\<lambda>r. (rep_epoch r, rep_train_acc r, rep_test_acc r))
                      (map (\<lambda>r. r\<lparr>rep_loss := NaN\<rparr>) (printed w))"
  by (simp add: accuracies_def comp_def)

lemma same_outcome_shows:
  assumes "same_outcome r1 r2"
  shows "fst r1 = fst r2 \<and> nets (snd r1) = nets (snd r2) \<and>
         accuracies (snd r1) = accuracies (snd r2) \<and> calls (snd r1) = calls (snd r2)"
proof -
  from assms have f: "fst r1 = fst r2" and e: "forget_loss (snd r1) = forget_loss (snd r2)"
    by (simp_all add: same_outcome_def)
  from e have p: "map (\<lambda>r. r\<lparr>rep_loss := NaN\<rparr>) (printed (snd r1))
                = map (\<lambda>r. r\<lparr>rep_loss := NaN\<rparr>) (printed (snd r2))"
    by (simp add: forget_loss_eq_iff)
  have "accuracies (snd r1) = accuracies (snd r2)"
    by (simp only: accuracies_forget p)
  then show ?thesis using f e by (simp add: forget_loss_eq_iff)
qed

text \<open>
  Claim C7. Take two runs of a training loop that start in states which differ at most
  in the value of \<open>moving_loss\<close> and in the loss shown in lines printed before, and that
  may use different smoothing constants. Both end in the same way (normally, or with the
  same exception), with the same parameters in every network, the same printed epochs
  and accuracies and the same calls made. This holds for the epoch loop of the MNIST
  notebooks and for that of the VGG notebook over any list of epochs, and so for the
  three training cells.
\<close>

theorem moving_loss_for_display_only:
  assumes "forget_loss w1 = forget_loss w2"
  shows "(let r1 = for_epochs (mnist_epoch lib rs sc1 train_it test_it) es w1;
              r2 = for_epochs (mnist_epoch lib rs sc2 train_it test_it) es w2
          in fst r1 = fst r2 \<and> nets (snd r1) = nets (snd r2) \<and>
             accuracies (snd r1) = accuracies (snd r2) \<and> calls (snd r1) = calls (snd r2))
       \<and> (let r1 = for_epochs (vgg_epoch lib sc1 train_dl test_dl) es w1;
              r2 = for_epochs (vgg_epoch lib sc2 train_dl test_dl) es w2
          in fst r1 = fst r2 \<and> nets (snd r1) = nets (snd r2) \<and>
             accuracies (snd r1) = accuracies (snd r2) \<and> calls (snd r1) = calls (snd r2))
       \<and> same_outcome (cnn_training lib train_it test_it w1) (cnn_training lib train_it test_it w2)
       \<and> same_outcome (logistic_training lib rs train_it test_it w1)
                       (logistic_training lib rs train_it test_it w2)
       \<and> same_outcome (vgg_training lib train_dl test_dl w1) (vgg_training lib train_dl test_dl w2)"
proof -
  have m: "same_outcome (for_epochs (mnist_epoch lib rs sc1 train_it test_it) es w1)
                        (for_epochs (mnist_epoch lib rs sc2 train_it test_it) es w2)"
    if "forget_loss w1 = forget_loss w2"
    for rs sc1 sc2 es w1 and w2 :: "('a, 'b) world"
    using that by (intro for_epochs_forget mnist_epoch_forget)
  have v: "same_outcome (for_epochs (vgg_epoch lib sc1 train_dl test_dl) es w1)
                        (for_epochs (vgg_epoch lib sc2 train_dl test_dl) es w2)"
    for sc1 sc2 es
    by (intro for_epochs_forget vgg_epoch_forget assms)
  have l: "forget_loss (w1\<lparr>var_moving_loss := Some (Fin 0)\<rparr>)
         = forget_loss (w2\<lparr>var_moving_loss := Some (Fin 0)\<rparr>)"
    using assms by (simp add: forget_loss_eq_iff)
  show ?thesis
    unfolding Let_def cnn_training_def logistic_training_def vgg_training_def
    by (intro conjI same_outcome_shows m v assms l)
qed

theorem moving_loss_for_display_only_witness:
  "forget_loss ((kernel_state ''net'' (2::nat) (0::nat))\<lparr>var_moving_loss := Some (Fin 5)\<rparr>)
     = forget_loss ((kernel_state ''net'' 2 0)\<lparr>var_moving_loss := Some (Fin 7)\<rparr>)
   \<and> nets (snd (for_epochs (mnist_epoch toy_lib (\<lambda>x. x) (1 / 100) (mnist_iter (samples 64))
                    (mnist_iter (samples 64))) [0, 1]
                 ((kernel_state ''net'' 2 0)\<lparr>var_moving_loss := Some (Fin 5)\<rparr>)))
     = nets (snd (for_epochs (mnist_epoch toy_lib (\<lambda>x. x) (1 / 2) (mnist_iter (samples 64))
                    (mnist_iter (samples 64))) [0, 1]
                 ((kernel_state ''net'' 2 0)\<lparr>var_moving_loss := Some (Fin 7)\<rparr>)))
   \<and> accuracies (snd (for_epochs (mnist_epoch toy_lib (\<lambda>x. x) (1 / 100) (mnist_iter (samples 64))
                    (mnist_iter (samples 64))) [0, 1]
                 ((kernel_state ''net'' 2 0)\<lparr>var_moving_loss := Some (Fin 5)\<rparr>)))
     = accuracies (snd (for_epochs (mnist_epoch toy_lib (\<lambda>x. x) (1 / 2) (mnist_iter (samples 64))
                    (mnist_iter (samples 64))) [0, 1]
                 ((kernel_state ''net'' 2 0)\<lparr>var_moving_loss := Some (Fin 7)\<rparr>)))
   \<and> same_outcome
       (vgg_training toy_lib (cifar_loader (samples 64) True) (cifar_loader (samples 64) False)
          ((kernel_state ''net'' 2 0)\<lparr>var_moving_loss := Some (Fin 5)\<rparr>))
       (vgg_training toy_lib (cifar_loader (samples 64) True) (cifar_loader (samples 64) False)
          ((kernel_state ''net'' 2 0)\<lparr>var_moving_loss := Some (Fin 7)\<rparr>))"
proof -
  let ?w1 = "(kernel_state ''net'' (2::nat) (0::nat))\<lparr>var_moving_loss := Some (Fin 5)\<rparr>"
  let ?w2 = "(kernel_state ''net'' (2::nat) (0::nat))\<lparr>var_moving_loss := Some (Fin 7)\<rparr>"
  have h: "forget_loss ?w1 = forget_loss ?w2"
    by (simp add: forget_loss_def kernel_state_def)
  note t = moving_loss_for_display_only[OF h, where lib = toy_lib and rs = "\<lambda>x. x"
      and ?sc1.0 = "1 / 100" and ?sc2.0 = "1 / 2" and train_it = "mnist_iter (samples 64)"
      and test_it = "mnist_iter (samples 64)" and es = "[0, 1]"
      and train_dl = "cifar_loader (samples 64) True" and test_dl = "cifar_loader (samples 64) False",
      unfolded Let_def]
  show ?thesis using h t by simp
qed

section \<open>Exceptions\<close>





lemma batch_step_forward_fails:
  "lookup_net w name = Inr p \<Longrightarrow> forward lib p data = Inl x \<Longrightarrow>
   batch_step lib name sc e data label w =
     (Inl x, w\<lparr>calls := calls w @ [EvForward True (length data)]\<rparr>)"
  by (simp add: batch_step_def Let_def lookup_net_def call_net_def split: option.splits)







section \<open>What a pass over the training data yields\<close>

lemma step_sizes_append: "step_sizes (xs @ ys) = step_sizes xs @ step_sizes ys"
  by (induction xs rule: step_sizes.induct) auto

lemma step_sizes_forward: "step_sizes (map (\<lambda>b. EvForward r (f b)) bs) = []"
  by (induction bs) auto

lemma train_enumerate_steps:
  "train_enumerate lib name rs sc e i batches w = (Inr u, w') \<Longrightarrow>
   step_sizes (calls w') = step_sizes (calls w) @ map length batches"
proof (induction batches arbitrary: i w)
  case Nil
  then show ?case by simp
next
  case (Cons b batches)
  obtain r w1 where s: "batch_step lib name sc e (map rs (map fst b)) (map snd b) (w\<lparr>var_i := Some i\<rparr>) = (r, w1)"
    by (cases "batch_step lib name sc e (map rs (map fst b)) (map snd b) (w\<lparr>var_i := Some i\<rparr>)")
  with Cons.prems obtain v where r: "r = Inr v"
    by (cases r) auto
  from batch_step_calls[OF s[unfolded r]]
  have "step_sizes (calls w1) = step_sizes (calls w) @ [length b]"
    by (simp add: step_sizes_append)
  moreover from Cons.prems s r have "train_enumerate lib name rs sc e (Suc i) batches w1 = (Inr u, w')"
    by simp
  from Cons.IH[OF this] have "step_sizes (calls w') = step_sizes (calls w1) @ map length batches" .
  ultimately show ?case by simp
qed

lemma evaluate_accuracy_steps:
  "step_sizes (calls (snd (evaluate_accuracy lib rs batches p w))) = step_sizes (calls w)"
proof -
  from evaluate_accuracy_frame[of batches lib rs p w] obtain k where
    "snd (evaluate_accuracy lib rs batches p w) =
       w\<lparr>calls := calls w @ map (\<lambda>b. EvForward (recording w) (length b)) (take k batches)\<rparr>"
    by blast
  then show ?thesis by (simp add: step_sizes_append step_sizes_forward)
qed

lemma batch_step_nets:
  "batch_step lib name sc e data label w = (Inr u, w') \<Longrightarrow> nets w name = Some p \<Longrightarrow>
   nets w' = (nets w)(name \<mapsto> sgd_update lib p (gradient lib p data label) (length data))"
  by (auto simp: batch_step_def Let_def call_net_def call_loss_def loss_backward_def
      trainer_step_def lookup_net_def split: sum.splits option.splits if_splits)

lemma train_enumerate_nets:
  "train_enumerate lib name rs sc e i batches w = (Inr u, w') \<Longrightarrow> nets w name = Some p \<Longrightarrow>
   nets w' name = Some (foldl (sgd_on lib rs) p batches)"
proof (induction batches arbitrary: i w p)
  case Nil
  then show ?case by simp
next
  case (Cons b batches)
  obtain r w1 where s: "batch_step lib name sc e (map rs (map fst b)) (map snd b) (w\<lparr>var_i := Some i\<rparr>) = (r, w1)"
    by (cases "batch_step lib name sc e (map rs (map fst b)) (map snd b) (w\<lparr>var_i := Some i\<rparr>)")
  with Cons.prems obtain v where r: "r = Inr v"
    by (cases r) auto
  from batch_step_nets[OF s[unfolded r], of p] Cons.prems(2)
  have n: "nets w1 name = Some (sgd_on lib rs p b)"
    by (simp add: sgd_on_def)
  from Cons.prems s r have "train_enumerate lib name rs sc e (Suc i) batches w1 = (Inr u, w')"
    by simp
  from Cons.IH[OF this n] show ?case by simp
qed

lemma mnist_epoch_steps:
  assumes "mnist_epoch lib rs sc train_it test_it e w = (Inr u, w')"
  shows "step_sizes (calls w') = step_sizes (calls w) @ map length (nd_epoch train_it)"
    and "nets w ''net'' = Some p \<Longrightarrow> nets w' ''net'' = Some (foldl (sgd_on lib rs) p (nd_epoch train_it))"
proof -
  from assms obtain v w1 where t: "train_enumerate lib ''net'' rs sc e 0 (nd_epoch train_it) w = (Inr v, w1)"
    by (auto simp: mnist_epoch_def split: prod.splits sum.splits)
  from assms t obtain q where q: "lookup_net w1 ''net'' = Inr q"
    by (auto simp: mnist_epoch_def split: prod.splits sum.splits)
  from assms t q obtain a w2 where a: "evaluate_accuracy_nd lib rs test_it q w1 = (Inr a, w2)"
    by (auto simp: mnist_epoch_def split: prod.splits sum.splits)
  from assms t q a obtain q' where q': "lookup_net w2 ''net'' = Inr q'"
    by (auto simp: mnist_epoch_def split: prod.splits sum.splits)
  from assms t q a q' obtain a' w3 where a': "evaluate_accuracy_nd lib rs train_it q' w2 = (Inr a', w3)"
    by (auto simp: mnist_epoch_def split: prod.splits sum.splits)
  from assms t q a q' a' have pr: "print_report e a' a w3 = (Inr u, w')"
    by (simp add: mnist_epoch_def)
  then have c: "calls w' = calls w3" and n: "nets w' = nets w3"
    by (auto simp: print_report_def split: option.splits)
  have s3: "step_sizes (calls w3) = step_sizes (calls w2)" and n3: "nets w3 = nets w2"
    using evaluate_accuracy_steps[of lib rs "nd_epoch train_it" q' w2]
      evaluate_accuracy_nets[of lib rs "nd_epoch train_it" q' w2] a'
    by (simp_all add: evaluate_accuracy_nd_def)
  have s2: "step_sizes (calls w2) = step_sizes (calls w1)" and n2: "nets w2 = nets w1"
    using evaluate_accuracy_steps[of lib rs "nd_epoch test_it" q w1]
      evaluate_accuracy_nets[of lib rs "nd_epoch test_it" q w1] a
    by (simp_all add: evaluate_accuracy_nd_def)
  show "step_sizes (calls w') = step_sizes (calls w) @ map length (nd_epoch train_it)"
    using c s3 s2 train_enumerate_steps[OF t] by simp
  show "nets w' ''net'' = Some (foldl (sgd_on lib rs) p (nd_epoch train_it))"
    if "nets w ''net'' = Some p"
    using n n3 n2 train_enumerate_nets[OF t that] by simp
qed

lemma getdata_length:
  "nd_batch_size it \<le> length (nd_data it) \<Longrightarrow> c < length (nd_data it) \<Longrightarrow>
   length (getdata it c) = nd_batch_size it"
  by (auto simp: getdata_def)

lemma nd_iterate_lengths:
  "nd_batch_size it \<le> length (nd_data it) \<Longrightarrow> b \<in> set (nd_iterate it c) \<Longrightarrow>
   length b = nd_batch_size it"
proof (induction it c rule: nd_iterate.induct)
  case (1 it c)
  show ?case
  proof (cases "nd_batch_size it = 0 \<or> \<not> c < length (nd_data it)")
    case True
    then have "nd_iterate it c = []"
      using nd_iterate.simps[of it c]
      by (cases "nd_batch_size it = 0"; simp del: nd_iterate.simps)
    with "1.prems"(2) show ?thesis by simp
  next
    case False
    then have "nd_iterate it c = getdata it c # nd_iterate it (c + nd_batch_size it)"
      using nd_iterate.simps[of it c] by (simp del: nd_iterate.simps)
    with "1.prems"(2) have "b = getdata it c \<or> b \<in> set (nd_iterate it (c + nd_batch_size it))"
      by (simp only: set_simps insert_iff)
    then show ?thesis
    proof
      assume "b = getdata it c"
      moreover from False have "c < length (nd_data it)" by simp
      ultimately show ?thesis using "1.prems"(1) getdata_length[of it c] by simp
    next
      assume m: "b \<in> set (nd_iterate it (c + nd_batch_size it))"
      from False have "nd_batch_size it \<noteq> 0" "c < length (nd_data it)" by simp_all
      from "1.IH"[OF this "1.prems"(1) m] show ?thesis .
    qed
  qed
qed

lemma nd_epoch_lengths:
  "nd_batch_size it \<le> length (nd_data it) \<Longrightarrow> list_all (\<lambda>b. length b = nd_batch_size it) (nd_epoch it)"
  unfolding list_all_iff nd_epoch_def using nd_iterate_lengths[of it _ 0] by blast

lemma mset_take_subset: "mset (take k ys) \<subseteq># mset ys"
proof -
  have "mset ys = mset (take k ys) + mset (drop k ys)"
    by (metis append_take_drop_id mset_append)
  then show ?thesis by simp
qed

text \<open>
  Claim C4, in the form that holds. One pass over the data loader of the VGG notebook
  yields, in batches, the first \<open>(n div b) * b\<close> samples of the order of that pass, where
  \<open>n\<close> is the number of samples and \<open>b\<close> the batch size: the rest is discarded. When the
  order of the pass is a permutation of the data set, as a shuffle is, every sample is
  yielded at most once, \<open>(n div b) * b\<close> samples are yielded in all, and every sample
  exactly once when \<open>b\<close> divides \<open>n\<close>. One pass over an \<open>NDArrayIter\<close> that the constructor
  has built, with a positive batch size, yields batches of \<open>b\<close> samples: all samples in
  order and then, to fill the last batch, the first \<open>(b - n mod b) mod b\<close> samples
  again; every sample exactly once when \<open>b\<close> divides \<open>n\<close>. An epoch of the MNIST notebooks
  that ends normally has made one trainer step per batch of one pass over the training
  iterator, with the size of the batch, and the parameters of the network are those
  that the updates on these batches, one after the other, make of the parameters
  before the epoch.
\<close>

theorem epoch_is_one_pass:
  "concat (fst (dl_epoch lib dl w)) =
     (let ys = (if dl_shuffle dl then shuffle lib (rng w) (dl_dataset dl) else dl_dataset dl)
      in take (length ys div dl_batch_size dl * dl_batch_size dl) ys)
   \<and> (mset (if dl_shuffle dl then shuffle lib (rng w) (dl_dataset dl) else dl_dataset dl)
         = mset (dl_dataset dl) \<longrightarrow>
        mset (concat (fst (dl_epoch lib dl w))) \<subseteq># mset (dl_dataset dl)
        \<and> length (concat (fst (dl_epoch lib dl w)))
            = length (dl_dataset dl) div dl_batch_size dl * dl_batch_size dl
        \<and> (dl_batch_size dl dvd length (dl_dataset dl) \<longrightarrow>
             mset (concat (fst (dl_epoch lib dl w))) = mset (dl_dataset dl)))
   \<and> (nd_array_iter xs bs = Inr it \<and> 0 < bs \<longrightarrow>
        concat (nd_epoch it) = xs @ take ((bs - length xs mod bs) mod bs) xs
        \<and> list_all (\<lambda>b. length b = bs) (nd_epoch it)
        \<and> (bs dvd length xs \<longrightarrow> concat (nd_epoch it) = xs))
   \<and> (mnist_epoch lib rs sc train_it test_it e w = (Inr u, w') \<and> nets w ''net'' = Some p \<longrightarrow>
        step_sizes (calls w') = step_sizes (calls w) @ map length (nd_epoch train_it)
        \<and> nets w' ''net'' = Some (foldl (sgd_on lib rs) p (nd_epoch train_it)))"
proof (intro conjI impI)
  let ?ys = "if dl_shuffle dl then shuffle lib (rng w) (dl_dataset dl) else dl_dataset dl"
  let ?b = "dl_batch_size dl"
  have c: "concat (fst (dl_epoch lib dl w)) = take (length ?ys div ?b * ?b) ?ys"
    using dl_epoch_pass[of lib dl w] by (simp only: Let_def)
  show "concat (fst (dl_epoch lib dl w)) =
     (let ys = ?ys in take (length ys div dl_batch_size dl * dl_batch_size dl) ys)"
    by (rule dl_epoch_pass)
  {
    assume m: "mset ?ys = mset (dl_dataset dl)"
    then have l: "length ?ys = length (dl_dataset dl)" by (rule mset_eq_length)
    show "mset (concat (fst (dl_epoch lib dl w))) \<subseteq># mset (dl_dataset dl)"
      using mset_take_subset[of "length ?ys div ?b * ?b" ?ys] m by (simp only: c)
    have "length ?ys div ?b * ?b \<le> length ?ys" by simp
    then show "length (concat (fst (dl_epoch lib dl w))) = length (dl_dataset dl) div ?b * ?b"
      using l by (simp only: c length_take min.absorb2)
    {
      assume "?b dvd length (dl_dataset dl)"
      then have "length ?ys div ?b * ?b = length ?ys" using l by simp
      then have "concat (fst (dl_epoch lib dl w)) = ?ys" by (simp only: c take_all_iff le_refl)
      then show "mset (concat (fst (dl_epoch lib dl w))) = mset (dl_dataset dl)"
        using m by simp
    }
  }
next
  assume a: "nd_array_iter xs bs = Inr it \<and> 0 < bs"
  then show "concat (nd_epoch it) = xs @ take ((bs - length xs mod bs) mod bs) xs"
    using nd_array_iter_pass by blast
  from a have it: "nd_data it = xs" "nd_batch_size it = bs" "bs \<le> length xs"
    by (auto simp: nd_array_iter_def split: if_splits)
  then show "list_all (\<lambda>b. length b = bs) (nd_epoch it)"
    using nd_epoch_lengths[of it] by simp
  {
    assume "bs dvd length xs"
    then have "length xs mod bs = 0" by auto
    with a nd_array_iter_pass[of xs bs it] show "concat (nd_epoch it) = xs" by simp
  }
next
  assume a: "mnist_epoch lib rs sc train_it test_it e w = (Inr u, w') \<and> nets w ''net'' = Some p"
  then have a1: "mnist_epoch lib rs sc train_it test_it e w = (Inr u, w')"
    and a2: "nets w ''net'' = Some p" by simp_all
  from mnist_epoch_steps(1)[OF a1]
  show "step_sizes (calls w') = step_sizes (calls w) @ map length (nd_epoch train_it)" .
  from mnist_epoch_steps(2)[OF a1 a2]
  show "nets w' ''net'' = Some (foldl (sgd_on lib rs) p (nd_epoch train_it))" .
qed

lemma shuffling_loader_pass:
  "dl_epoch toy_lib shuffling_loader w = ([[(1, 0)], [(0, 0)]], w\<lparr>rng := Suc (rng w)\<rparr>)"
  by (simp add: dl_epoch_def shuffling_loader_def batch_sampler.simps toy_lib_def)

theorem epoch_is_one_pass_witness:
  "mset (shuffle toy_lib 0 [(0, 0), (1, 0)]) = mset [(0::nat, 0::nat), (1, 0)]
   \<and> (1::nat) dvd length [(0::nat, 0::nat), (1, 0)]
   \<and> concat (fst (dl_epoch toy_lib shuffling_loader (kernel_state ''vgg_net'' (1::nat) (0::nat))))
       = [(1, 0), (0, 0)]
   \<and> mset (concat (fst (dl_epoch toy_lib shuffling_loader (kernel_state ''vgg_net'' (1::nat) (0::nat)))))
       = mset [(0, 0), (1, 0)]
   \<and> length (concat (fst (dl_epoch toy_lib discarding_loader (kernel_state ''vgg_net'' (1::nat) (0::nat)))))
       = 2
   \<and> nd_array_iter [(0, 0), (1, 0), (2, 0)] 2 = Inr three_by_two \<and> (0::nat) < 2
   \<and> concat (nd_epoch three_by_two) = [(0, 0), (1, 0), (2, 0), (0, 0)]
   \<and> list_all (\<lambda>b. length b = 2) (nd_epoch three_by_two)
   \<and> nd_array_iter [(0, 0), (1, 0)] 1 = Inr two_batches \<and> (1::nat) dvd length [(0::nat, 0::nat), (1, 0)]
   \<and> concat (nd_epoch two_batches) = [(0, 0), (1, 0)]
   \<and> fst (mnist_epoch toy_lib (\<lambda>x. x) smoothing_constant one_batch one_batch 0 (kernel_state ''net'' 2 0))
       = Inr ()
   \<and> nets (kernel_state ''net'' (2::nat) (0::nat)) ''net'' = Some 2
   \<and> step_sizes (calls (snd (mnist_epoch toy_lib (\<lambda>x. x) smoothing_constant one_batch one_batch 0
        (kernel_state ''net'' 2 0)))) = [1]
   \<and> nets (snd (mnist_epoch toy_lib (\<lambda>x. x) smoothing_constant one_batch one_batch 0
        (kernel_state ''net'' 2 0))) ''net'' = Some 1"
proof -
  let ?K = "kernel_state ''net'' (2::nat) (0::nat)"
  let ?V = "kernel_state ''vgg_net'' (1::nat) (0::nat)"
  define w' where "w' = snd (mnist_epoch toy_lib (\<lambda>x. x) smoothing_constant one_batch one_batch 0 ?K)"
  have r: "rng ?V = 0" by (simp add: kernel_state_def)
  have h1: "mset (if dl_shuffle shuffling_loader
                  then shuffle toy_lib (rng ?V) (dl_dataset shuffling_loader)
                  else dl_dataset shuffling_loader) = mset (dl_dataset shuffling_loader)"
    by (simp add: shuffling_loader_def toy_lib_def)
  have h1d: "dl_batch_size shuffling_loader dvd length (dl_dataset shuffling_loader)"
    by (simp add: shuffling_loader_def)
  have h2: "mset (if dl_shuffle discarding_loader
                  then shuffle toy_lib (rng ?V) (dl_dataset discarding_loader)
                  else dl_dataset discarding_loader) = mset (dl_dataset discarding_loader)"
    by (simp add: discarding_loader_def)
  have h3: "nd_array_iter [(0, 0), (1, 0), (2, 0)] 2 = Inr three_by_two \<and> (0::nat) < 2"
    by (simp add: nd_array_iter_def three_by_two_def)
  have h4: "nd_array_iter [(0, 0), (1, 0)] 1 = Inr two_batches \<and> (0::nat) < 1"
    by (simp add: nd_array_iter_def two_batches_def)
  have h5: "mnist_epoch toy_lib (\<lambda>x. x) smoothing_constant one_batch one_batch 0 ?K = (Inr (), w')
            \<and> nets ?K ''net'' = Some 2"
    by (simp add: w'_def toy_run)
  note t1 = epoch_is_one_pass[where lib = toy_lib and dl = shuffling_loader and w = ?V,
      THEN conjunct2, THEN conjunct1, THEN mp, OF h1]
  note t2 = epoch_is_one_pass[where lib = toy_lib and dl = discarding_loader and w = ?V,
      THEN conjunct2, THEN conjunct1, THEN mp, OF h2]
  note t3 = epoch_is_one_pass[where xs = "[(0, 0), (1, 0), (2, 0)]" and bs = 2 and it = three_by_two,
      THEN conjunct2, THEN conjunct2, THEN conjunct1, THEN mp, OF h3]
  note t4 = epoch_is_one_pass[where xs = "[(0, 0), (1, 0)]" and bs = 1 and it = two_batches,
      THEN conjunct2, THEN conjunct2, THEN conjunct1, THEN mp, OF h4]
  note t5 = epoch_is_one_pass[where lib = toy_lib and rs = "\<lambda>x. x" and sc = smoothing_constant
      and train_it = one_batch and test_it = one_batch and e = 0 and w = ?K and u = "()" and w' = w'
      and p = 2, THEN conjunct2, THEN conjunct2, THEN conjunct2, THEN mp, OF h5]
  have c1: "mset (concat (fst (dl_epoch toy_lib shuffling_loader ?V))) = mset [(0, 0), (1, 0)]"
    using t1 h1d by (simp add: shuffling_loader_def)
  have c2: "length (concat (fst (dl_epoch toy_lib discarding_loader ?V))) = 2"
    using t2 by (simp add: discarding_loader_def)
  have c3: "concat (nd_epoch three_by_two) = [(0, 0), (1, 0), (2, 0), (0, 0)]"
    "list_all (\<lambda>b. length b = 2) (nd_epoch three_by_two)"
    using t3 by simp_all
  have c4: "concat (nd_epoch two_batches) = [(0, 0), (1, 0)]"
    using t4 by simp
  have p1: "nd_epoch one_batch = [[(0, 0)]]"
    by (simp add: nd_epoch_def nd_iterate.simps getdata_def one_batch_def)
  have c5: "step_sizes (calls w') = [1]" "nets w' ''net'' = Some 1"
    using t5 by (simp_all add: p1 kernel_state_def sgd_on_def toy_lib_def)
  have h5f: "fst (mnist_epoch toy_lib (\<lambda>x. x) smoothing_constant one_batch one_batch 0 ?K) = Inr ()"
    using h5 by simp
  have c0: "mset (shuffle toy_lib 0 [(0, 0), (1, 0)]) = mset [(0::nat, 0::nat), (1, 0)]"
    "(1::nat) dvd length [(0::nat, 0::nat), (1, 0)]"
    by (simp_all add: toy_lib_def)
  have c1': "concat (fst (dl_epoch toy_lib shuffling_loader ?V)) = [(1, 0), (0, 0)]"
    by (simp add: shuffling_loader_pass)
  have h5n: "nets ?K ''net'' = Some 2" using h5 by simp
  have h3a: "nd_array_iter [(0, 0), (1, 0), (2, 0)] 2 = Inr three_by_two" "(0::nat) < 2"
    using h3 by simp_all
  have h4a: "nd_array_iter [(0, 0), (1, 0)] 1 = Inr two_batches" using h4 by simp
  show ?thesis
    unfolding w'_def[symmetric]
    by (intro conjI c0 c1' c1 c2 h3a c3 h4a c4 h5f h5n c5)
qed

text \<open>
  Claim C4 as it is worded, every sample exactly once in each epoch, does not hold.
  With 65 samples and the batch size 64 of the notebooks, a pass over the
  \<open>NDArrayIter\<close> yields the first sample twice, a pass over the shuffling data loader
  (here the shuffle reverses the order) does not yield it at all, and an epoch of the
  MNIST loop trains on two batches of 64.
\<close>

theorem epoch_not_every_sample_once:
  "count_list (concat (nd_epoch (mnist_iter (samples 65)))) (0, 0) = 2
   \<and> count_list (concat (fst (dl_epoch toy_lib (cifar_loader (samples 65) True)
                                 (kernel_state ''vgg_net'' (1::nat) (0::nat))))) (0, 0) = 0
   \<and> step_sizes (calls (snd (mnist_epoch toy_lib (\<lambda>x. x) smoothing_constant (mnist_iter (samples 65))
        (mnist_iter (samples 64)) 0 (kernel_state ''net'' 200 0)))) = [64, 64]"
  by code_simp

section \<open>The training cell of the VGG notebook\<close>

lemma batch_step_unbound_i:
  assumes "var_i w = None"
  shows "\<exists>x. fst (batch_step lib name sc e data label w) = Inl x"
    and "var_i (snd (batch_step lib name sc e data label w)) = None"
    and "printed (snd (batch_step lib name sc e data label w)) = printed w"
    and "var_moving_loss (snd (batch_step lib name sc e data label w)) = var_moving_loss w"
  using assms
  by (auto simp: batch_step_def Let_def call_net_def call_loss_def loss_backward_def
      trainer_step_def lookup_net_def split: sum.splits option.splits)

lemma batch_step_other_net:
  "name \<noteq> other \<Longrightarrow> nets (snd (batch_step lib name sc e data label w)) other = nets w other"
  by (auto simp: batch_step_def Let_def call_net_def call_loss_def loss_backward_def
      trainer_step_def lookup_net_def split: sum.splits option.splits)

lemma vgg_epoch_fresh:
  assumes i: "var_i w = None" and a: "nets w ''alex_net'' = None"
  shows "\<exists>x. fst (vgg_epoch lib sc train_data test_data e w) = Inl x"
    and "printed (snd (vgg_epoch lib sc train_data test_data e w)) = printed w"
    and "var_moving_loss (snd (vgg_epoch lib sc train_data test_data e w)) = var_moving_loss w"
proof -
  obtain batches w0 where d: "dl_epoch lib train_data w = (batches, w0)"
    by (cases "dl_epoch lib train_data w")
  have "snd (dl_epoch lib train_data w) = (if dl_shuffle train_data then w\<lparr>rng := Suc (rng w)\<rparr> else w)"
    by (simp add: dl_epoch_def)
  with d have "w0 = (if dl_shuffle train_data then w\<lparr>rng := Suc (rng w)\<rparr> else w)" by simp
  then have w0: "var_i w0 = None" "nets w0 ''alex_net'' = None" "printed w0 = printed w"
    "var_moving_loss w0 = var_moving_loss w"
    using i a by (cases "dl_shuffle train_data"; simp)+
  have "(\<exists>x. fst (vgg_epoch lib sc train_data test_data e w) = Inl x)
      \<and> printed (snd (vgg_epoch lib sc train_data test_data e w)) = printed w
      \<and> var_moving_loss (snd (vgg_epoch lib sc train_data test_data e w)) = var_moving_loss w"
  proof (cases batches)
    case Nil
    then show ?thesis using d w0 by (simp add: vgg_epoch_def lookup_net_def)
  next
    case (Cons b bs)
    obtain r w1 where s: "batch_step lib ''vgg_net'' sc e (map fst b) (map snd b) w0 = (r, w1)"
      by (cases "batch_step lib ''vgg_net'' sc e (map fst b) (map snd b) w0")
    from batch_step_unbound_i[OF w0(1), of lib "''vgg_net''" sc e "map fst b" "map snd b"] s w0
    obtain x where "r = Inl x" and "printed w1 = printed w" and "var_moving_loss w1 = var_moving_loss w"
      by auto
    then show ?thesis using d Cons s by (simp add: vgg_epoch_def)
  qed
  then show "\<exists>x. fst (vgg_epoch lib sc train_data test_data e w) = Inl x"
    and "printed (snd (vgg_epoch lib sc train_data test_data e w)) = printed w"
    and "var_moving_loss (snd (vgg_epoch lib sc train_data test_data e w)) = var_moving_loss w"
    by blast+
qed

lemma epochs_range: "[0..<epochs] = 0 # [1..<epochs]"
  by (simp add: epochs_def upt_conv_Cons)

lemma vgg_training_first_epoch:
  "fst (vgg_epoch lib smoothing_constant train_data test_data 0 w) = Inl x \<Longrightarrow>
   vgg_training lib train_data test_data w =
     (Inl x, snd (vgg_epoch lib smoothing_constant train_data test_data 0 w))"
  by (cases "vgg_epoch lib smoothing_constant train_data test_data 0 w")
     (simp add: vgg_training_def epochs_range)

lemma vgg_training_fresh:
  "(\<exists>x. fst (vgg_training lib train_data test_data (kernel_state ''vgg_net'' p g)) = Inl x)
   \<and> printed (snd (vgg_training lib train_data test_data (kernel_state ''vgg_net'' p g))) = []
   \<and> var_moving_loss (snd (vgg_training lib train_data test_data (kernel_state ''vgg_net'' p g))) = None"
proof -
  let ?w = "kernel_state ''vgg_net'' p g"
  have i: "var_i ?w = None" and a: "nets ?w ''alex_net'' = None"
    by (simp_all add: kernel_state_def)
  from vgg_epoch_fresh(1)[OF i a, of lib smoothing_constant train_data test_data 0]
  obtain x where x: "fst (vgg_epoch lib smoothing_constant train_data test_data 0 ?w) = Inl x" by blast
  show ?thesis
    using vgg_training_first_epoch[OF x] vgg_epoch_fresh(2,3)[OF i a, of lib smoothing_constant train_data test_data 0]
    by (simp add: kernel_state_def)
qed

lemma batch_sampler_one: "0 < bs \<Longrightarrow> length xs = bs \<Longrightarrow> batch_sampler bs xs = [xs]"
  by (simp add: batch_sampler.simps[of bs xs] batch_sampler.simps[of bs "[]"])

lemma toy_parts [simp]:
  "loss_fn toy_lib out lab = Inr (map (\<lambda>l. 1) lab)"
  "gradient toy_lib p d l = 1"
  "sgd_update toy_lib p g n = p - g"
  "shuffle toy_lib k xs = rev xs"
  by (simp_all add: toy_lib_def)

lemma cifar_first_pass:
  "dl_epoch toy_lib (cifar_loader (samples 64) True) w = ([rev (samples 64)], w\<lparr>rng := Suc (rng w)\<rparr>)"
  by (simp add: dl_epoch_def cifar_loader_def batch_size_def batch_sampler_one samples_def)

lemma samples_data: "map fst (rev (samples n)) = rev [0..<n]" "map snd (rev (samples n)) = replicate n 0"
  by (simp_all add: samples_def rev_map comp_def map_replicate_const)

lemma toy_forward_samples:
  "0 < p \<Longrightarrow> forward toy_lib p (rev [0..<64]) = Inr (map (toy_score p) (rev [0..<64]))"
  by (auto simp: toy_lib_def toy_score_def)

text \<open>
  Claim C1 fails on the VGG notebook. Its batch loop does not bind \<open>i\<close>, so on the first
  batch, after the trainer step, reading \<open>i\<close> raises \<open>NameError\<close>: the moving loss is never
  assigned. Here the cell runs on 64 samples, one full batch.
\<close>

theorem vgg_moving_loss_name_error:
  "vgg_training toy_lib (cifar_loader (samples 64) True) (cifar_loader (samples 64) False)
     (kernel_state ''vgg_net'' 2 0)
   = (Inl (NameError ''i''),
      \<lparr>nets = [''vgg_net'' \<mapsto> 1], grads = 1, recording = False, var_i = None,
       var_moving_loss = None, rng = 1, printed = [],
       calls = [EvForward True 64, EvLoss True, EvBackward, EvStep 64]\<rparr>)"
proof -
  let ?w = "kernel_state ''vgg_net'' (2::nat) (0::nat)"
  have "vgg_epoch toy_lib smoothing_constant (cifar_loader (samples 64) True)
          (cifar_loader (samples 64) False) 0 ?w
        = (Inl (NameError ''i''),
      \<lparr>nets = [''vgg_net'' \<mapsto> 1], grads = 1, recording = False, var_i = None,
       var_moving_loss = None, rng = 1, printed = [],
       calls = [EvForward True 64, EvLoss True, EvBackward, EvStep 64]\<rparr>)"
    by (simp add: vgg_epoch_def cifar_first_pass samples_data batch_step_def Let_def lookup_net_def
        call_net_def toy_forward_samples call_loss_def loss_backward_def trainer_step_def
        kernel_state_def)
  then show ?thesis
    using vgg_training_first_epoch[of toy_lib "cifar_loader (samples 64) True"
        "cifar_loader (samples 64) False" ?w "NameError ''i''"]
    by simp
qed

text \<open>
  Claim C2 fails on the VGG notebook. Started in the state its own cells leave, the
  training cell ends with an exception and prints no accuracy, whatever the library and
  the data. Even with \<open>i\<close> bound beforehand, so that the batch loop runs through, the
  end of the first epoch reads \<open>alex_net\<close>, a name that the notebook never binds, instead
  of \<open>vgg_net\<close>, the network that is trained.
\<close>

theorem vgg_reports_no_accuracy:
  "(\<exists>x. fst (vgg_training lib train_data test_data (kernel_state ''vgg_net'' p g)) = Inl x)
   \<and> accuracies (snd (vgg_training lib train_data test_data (kernel_state ''vgg_net'' p g))) = []
   \<and> fst (vgg_training toy_lib (cifar_loader (samples 64) True) (cifar_loader (samples 64) False)
            ((kernel_state ''vgg_net'' 2 0)\<lparr>var_i := Some 0\<rparr>)) = Inl (NameError ''alex_net'')
   \<and> accuracies (snd (vgg_training toy_lib (cifar_loader (samples 64) True)
            (cifar_loader (samples 64) False) ((kernel_state ''vgg_net'' 2 0)\<lparr>var_i := Some 0\<rparr>))) = []"
proof -
  let ?w = "(kernel_state ''vgg_net'' (2::nat) (0::nat))\<lparr>var_i := Some 0\<rparr>"
  let ?e = "vgg_epoch toy_lib smoothing_constant (cifar_loader (samples 64) True)
          (cifar_loader (samples 64) False) 0 ?w"
  have e: "fst ?e = Inl (NameError ''alex_net'')" "printed (snd ?e) = []"
    by (simp_all add: vgg_epoch_def cifar_first_pass samples_data batch_step_def Let_def lookup_net_def
        call_net_def toy_forward_samples call_loss_def loss_backward_def trainer_step_def
        kernel_state_def)
  from vgg_training_first_epoch[OF e(1)] e(2)
  have "fst (vgg_training toy_lib (cifar_loader (samples 64) True) (cifar_loader (samples 64) False) ?w)
          = Inl (NameError ''alex_net'')"
    and "accuracies (snd (vgg_training toy_lib (cifar_loader (samples 64) True)
            (cifar_loader (samples 64) False) ?w)) = []"
    by (simp_all add: accuracies_def)
  then show ?thesis
    using vgg_training_fresh[of lib train_data test_data p g]
    by (simp add: accuracies_def)
qed

text \<open>
  Claim C5 fails on the VGG notebook. The cell sets \<open>epochs = 10\<close>, but started in the
  state its own cells leave it never ends normally and never completes an epoch,
  whatever the library and the data. Here, with 128 samples (two batches per pass), it
  makes one trainer step instead of twenty.
\<close>

theorem vgg_stops_in_first_epoch:
  "epochs = 10
   \<and> fst (vgg_training lib train_data test_data (kernel_state ''vgg_net'' p g)) \<noteq> Inr ()
   \<and> length (printed (snd (vgg_training lib train_data test_data (kernel_state ''vgg_net'' p g)))) = 0
   \<and> step_sizes (calls (snd (vgg_training toy_lib (cifar_loader (samples 128) True)
        (cifar_loader (samples 64) False) (kernel_state ''vgg_net'' 2 0)))) = [64]"
proof -
  have "step_sizes (calls (snd (vgg_training toy_lib (cifar_loader (samples 128) True)
        (cifar_loader (samples 64) False) (kernel_state ''vgg_net'' 2 0)))) = [64]"
    by code_simp
  then show ?thesis
    using vgg_training_fresh[of lib train_data test_data p g]
    by (auto simp: epochs_def)
qed

lemma batch_step_unbound_i_calls:
  assumes "var_i w = None" and "EvMovingLoss \<notin> set (calls w)"
  shows "EvMovingLoss \<notin> set (calls (snd (batch_step lib name sc e data label w)))"
  using assms
  by (auto simp: batch_step_def Let_def call_net_def call_loss_def loss_backward_def
      trainer_step_def lookup_net_def split: sum.splits option.splits)

lemma vgg_epoch_fresh_calls:
  assumes i: "var_i w = None" and a: "nets w ''alex_net'' = None"
    and c: "EvMovingLoss \<notin> set (calls w)"
  shows "EvMovingLoss \<notin> set (calls (snd (vgg_epoch lib sc train_data test_data e w)))"
proof -
  obtain batches w0 where d: "dl_epoch lib train_data w = (batches, w0)"
    by (cases "dl_epoch lib train_data w")
  from dl_epoch_snd[of lib train_data w] d
  have "w0 = (if dl_shuffle train_data then w\<lparr>rng := Suc (rng w)\<rparr> else w)" by simp
  then have w0: "var_i w0 = None" "nets w0 ''alex_net'' = None" "EvMovingLoss \<notin> set (calls w0)"
    using i a c by (cases "dl_shuffle train_data"; simp)+
  show ?thesis
  proof (cases batches)
    case Nil
    then show ?thesis using d w0 by (simp add: vgg_epoch_def lookup_net_def)
  next
    case (Cons b bs)
    obtain r w1 where s: "batch_step lib ''vgg_net'' sc e (map fst b) (map snd b) w0 = (r, w1)"
      by (cases "batch_step lib ''vgg_net'' sc e (map fst b) (map snd b) w0")
    from batch_step_unbound_i(1)[OF w0(1), of lib "''vgg_net''" sc e "map fst b" "map snd b"] s
    obtain x where r: "r = Inl x" by auto
    from batch_step_unbound_i_calls[OF w0(1) w0(3), of lib "''vgg_net''" sc e "map fst b" "map snd b"] s
    have "EvMovingLoss \<notin> set (calls w1)" by simp
    then show ?thesis using d Cons s r by (simp add: vgg_epoch_def)
  qed
qed

text \<open>
  Claim C6 fails on the VGG notebook. Started in the state its own cells leave, the
  training cell never assigns \<open>moving_loss\<close>, whatever the library and the data: in its
  first mini-batch the forward pass, the loss, \<open>backward\<close> and the trainer step are
  followed by the \<open>NameError\<close> on \<open>i\<close>, not by the update of the moving loss. Here, with
  128 samples, these four calls are all the calls of the run.
\<close>

theorem vgg_never_updates_moving_loss:
  "EvMovingLoss \<notin> set (calls (snd (vgg_training lib train_data test_data (kernel_state ''vgg_net'' p g))))
   \<and> calls (snd (vgg_training toy_lib (cifar_loader (samples 128) True)
        (cifar_loader (samples 64) False) (kernel_state ''vgg_net'' 2 0)))
       = [EvForward True 64, EvLoss True, EvBackward, EvStep 64]"
proof -
  let ?w = "kernel_state ''vgg_net'' p g"
  have i: "var_i ?w = None" and a: "nets ?w ''alex_net'' = None"
    and c: "EvMovingLoss \<notin> set (calls ?w)"
    by (simp_all add: kernel_state_def)
  from vgg_epoch_fresh(1)[OF i a, of lib smoothing_constant train_data test_data 0]
  obtain x where x: "fst (vgg_epoch lib smoothing_constant train_data test_data 0 ?w) = Inl x" by blast
  have u: "EvMovingLoss \<notin> set (calls (snd (vgg_training lib train_data test_data ?w)))"
    using vgg_training_first_epoch[OF x]
      vgg_epoch_fresh_calls[OF i a c, of lib smoothing_constant train_data test_data 0]
    by simp
  have "calls (snd (vgg_training toy_lib (cifar_loader (samples 128) True)
        (cifar_loader (samples 64) False) (kernel_state ''vgg_net'' 2 0)))
       = [EvForward True 64, EvLoss True, EvBackward, EvStep 64]"
    by code_simp
  with u show ?thesis by simp
qed

section \<open>The training cells of the MNIST notebooks\<close>

text \<open>
  What claims C1, C2 and C5 say does hold for the two MNIST notebooks, whose batch loop
  binds \<open>i\<close> and whose epoch loop evaluates \<open>net\<close>.
\<close>

lemma batch_step_moving_loss:
  assumes "var_i w = Some i" and "batch_step lib name sc e data label w = (Inr u, w')"
  shows "\<exists>p out loss. nets w name = Some p \<and> forward lib p data = Inr out \<and>
           loss_fn lib out label = Inr loss \<and>
           (if i = 0 \<and> e = 0 then var_moving_loss w' = Some (nd_mean loss)
            else \<exists>m. var_moving_loss w = Some m \<and>
                 var_moving_loss w' =
                   Some (fl_add (fl_mul (Fin (1 - sc)) m) (fl_mul (Fin sc) (nd_mean loss))))"
  using assms
  by (auto simp: batch_step_def Let_def call_net_def call_loss_def loss_backward_def
      trainer_step_def lookup_net_def split: sum.splits option.splits if_splits)

lemma batch_step_printed:
  "printed (snd (batch_step lib name sc e data label w)) = printed w"
  by (auto simp: batch_step_def Let_def call_net_def call_loss_def loss_backward_def
      trainer_step_def lookup_net_def split: sum.splits option.splits)

lemma train_enumerate_printed:
  "printed (snd (train_enumerate lib name rs sc e i batches w)) = printed w"
proof (induction batches arbitrary: i w)
  case Nil
  show ?case by simp
next
  case (Cons b batches)
  obtain r w1 where s: "batch_step lib name sc e (map rs (map fst b)) (map snd b) (w\<lparr>var_i := Some i\<rparr>) = (r, w1)"
    by (cases "batch_step lib name sc e (map rs (map fst b)) (map snd b) (w\<lparr>var_i := Some i\<rparr>)")
  from batch_step_printed[of lib name sc e "map rs (map fst b)" "map snd b" "w\<lparr>var_i := Some i\<rparr>"] s
  have p: "printed w1 = printed w" by simp
  show ?case
  proof (cases r)
    case (Inl x)
    with s p show ?thesis by simp
  next
    case (Inr v)
    with s p Cons.IH[of "Suc i" w1] show ?thesis by simp
  qed
qed

lemma evaluate_accuracy_printed:
  "printed (snd (evaluate_accuracy lib rs batches p w)) = printed w"
proof -
  from evaluate_accuracy_frame[of batches lib rs p w] obtain k where
    "snd (evaluate_accuracy lib rs batches p w) =
       w\<lparr>calls := calls w @ map (\<lambda>b. EvForward (recording w) (length b)) (take k batches)\<rparr>"
    by blast
  then show ?thesis by simp
qed

lemma mnist_epoch_reports:
  assumes "mnist_epoch lib rs sc train_it test_it e w = (Inr u, w')"
  shows "\<exists>w1 p w2 test_accuracy train_accuracy m.
           train_enumerate lib ''net'' rs sc e 0 (nd_epoch train_it) w = (Inr (), w1) \<and>
           nets w1 ''net'' = Some p \<and> nets w' ''net'' = Some p \<and>
           evaluate_accuracy lib rs (nd_epoch test_it) p w1 = (Inr test_accuracy, w2) \<and>
           fst (evaluate_accuracy lib rs (nd_epoch train_it) p w2) = Inr train_accuracy \<and>
           printed w' = printed w @ [\<lparr>rep_epoch = e, rep_loss = m, rep_train_acc = train_accuracy,
                                      rep_test_acc = test_accuracy\<rparr>]"
proof -
  from assms obtain w1 where t: "train_enumerate lib ''net'' rs sc e 0 (nd_epoch train_it) w = (Inr (), w1)"
    by (auto simp: mnist_epoch_def split: prod.splits sum.splits)
  from assms t obtain p where p: "nets w1 ''net'' = Some p"
    by (auto simp: mnist_epoch_def lookup_net_def split: prod.splits sum.splits option.splits)
  from assms t p obtain a w2 where a: "evaluate_accuracy lib rs (nd_epoch test_it) p w1 = (Inr a, w2)"
    by (auto simp: mnist_epoch_def lookup_net_def evaluate_accuracy_nd_def split: prod.splits sum.splits)
  have n2: "nets w2 = nets w1"
    using evaluate_accuracy_nets[of lib rs "nd_epoch test_it" p w1] a by simp
  from assms t p a n2 obtain a' w3 where a': "evaluate_accuracy lib rs (nd_epoch train_it) p w2 = (Inr a', w3)"
    by (auto simp: mnist_epoch_def lookup_net_def evaluate_accuracy_nd_def split: prod.splits sum.splits)
  have n3: "nets w3 = nets w2"
    using evaluate_accuracy_nets[of lib rs "nd_epoch train_it" p w2] a' by simp
  from assms t p a n2 a' have pr: "print_report e a' a w3 = (Inr u, w')"
    by (simp add: mnist_epoch_def lookup_net_def evaluate_accuracy_nd_def)
  then obtain m where m: "printed w' = printed w3 @ [\<lparr>rep_epoch = e, rep_loss = m, rep_train_acc = a',
                                      rep_test_acc = a\<rparr>]" and n4: "nets w' = nets w3"
    by (auto simp: print_report_def split: option.splits)
  have "printed w3 = printed w"
    using evaluate_accuracy_printed[of lib rs "nd_epoch train_it" p w2] a'
      evaluate_accuracy_printed[of lib rs "nd_epoch test_it" p w1] a
      train_enumerate_printed[of lib "''net''" rs sc e 0 "nd_epoch train_it" w] t
    by simp
  with t p a a' m n2 n3 n4 show ?thesis by auto
qed

lemma mnist_epochs_reports:
  "for_epochs (mnist_epoch lib rs sc train_it test_it) es w = (Inr u, w') \<Longrightarrow>
   map rep_epoch (printed w') = map rep_epoch (printed w) @ es"
proof (induction es arbitrary: w)
  case Nil
  then show ?case by simp
next
  case (Cons e es)
  obtain r w1 where s: "mnist_epoch lib rs sc train_it test_it e w = (r, w1)"
    by (cases "mnist_epoch lib rs sc train_it test_it e w")
  with Cons.prems obtain v where r: "r = Inr v" by (cases r) auto
  from mnist_epoch_reports[OF s[unfolded r]] have "map rep_epoch (printed w1) = map rep_epoch (printed w) @ [e]"
    by auto
  moreover from Cons.prems s r have "for_epochs (mnist_epoch lib rs sc train_it test_it) es w1 = (Inr u, w')"
    by simp
  from Cons.IH[OF this] have "map rep_epoch (printed w') = map rep_epoch (printed w1) @ es" .
  ultimately show ?case by simp
qed

lemma cnn_training_epochs:
  "cnn_training lib train_it test_it w = (Inr u, w') \<Longrightarrow>
   map rep_epoch (printed w') = map rep_epoch (printed w) @ [0..<10]"
  unfolding cnn_training_def using mnist_epochs_reports[of lib "\<lambda>x. x" smoothing_constant train_it test_it "[0..<epochs]" w u w']
  by (simp add: epochs_def)

lemma logistic_training_epochs:
  "logistic_training lib reshape train_it test_it w = (Inr u, w') \<Longrightarrow>
   map rep_epoch (printed w') = map rep_epoch (printed w) @ [0..<10]"
  unfolding logistic_training_def
  using mnist_epochs_reports[of lib reshape smoothing_constant train_it test_it "[0..<epochs]"
      "w\<lparr>var_moving_loss := Some (Fin 0)\<rparr>" u w']
  by (simp add: epochs_def)

end
